theory Spec2Isabelle
  imports Main "HOL-Library.Word"
begin

unbundle bit_operations_syntax

section \<open>Data model of the transmit timestamping code (modules/net/timestamp.c)\<close>

text \<open>
  The driver's header \<^verbatim>\<open>main.h\<close> is not part of the sources at hand. What
  \<^verbatim>\<open>timestamp.c\<close> takes from it (ring sizes, register bits, the marker constant, the
  size of the timestamp struct, the header-length macros) is collected in the record
  \<open>params\<close>, so every function below is the code of \<^verbatim>\<open>timestamp.c\<close> for any value
  of these constants.
\<close>

type_synonym u8 = "8 word"
type_synonym u16 = "16 word"
type_synonym u32 = "32 word"
type_synonym u64 = "64 word"

text \<open>\<^verbatim>\<open>struct ptp_packet_fpga_timestamp\<close>, with the fields timestamp.c reads and writes.\<close>

record ptp_packet_fpga_timestamp =
  start_of_ts :: u16
  seconds_hi :: u16
  seconds :: u32
  nanoseconds :: u32
  sequence_id :: u16

text \<open>
  \<^verbatim>\<open>struct sk_buff\<close>, with what timestamp.c touches: \<^verbatim>\<open>skb->len\<close>, the bytes behind
  \<^verbatim>\<open>skb->data\<close> (memory indexed from \<^verbatim>\<open>skb->data\<close>; C reads whatever is there, also
  beyond \<^verbatim>\<open>len\<close>), \<^verbatim>\<open>skb_shinfo(skb)->tx_flags\<close> and
  \<^verbatim>\<open>skb_hwtstamps(skb)->hwtstamp\<close> (a \<^verbatim>\<open>ktime_t\<close>, signed 64 bit).
\<close>

record sk_buff =
  len :: u32
  data :: "nat \<Rightarrow> u8"
  tx_flags :: u8
  hwtstamp :: u64

record params =
  RA_NET_TX_TS_LIST_SIZE :: nat
  RA_NET_TX_SKB_LIST_SIZE :: nat
  RA_NET_TX_TIMESTAMP_START_OF_TS :: u32
  SIZEOF_TS_PACKET :: nat
  store_ts_words :: "u32 list \<Rightarrow> ptp_packet_fpga_timestamp \<Rightarrow> ptp_packet_fpga_timestamp"
  IPV4_HLEN :: "(nat \<Rightarrow> u8) \<Rightarrow> u32"
  UDP_HLEN :: u32
  OFF_PTP_SEQUENCE_ID :: u32
  RA_NET_PP_CONFIG_ENABLE_PTP_TIMESTAMPS :: u32
  RA_NET_PP_IRQ_PTP_TX_TS_IRQ_AVAILABLE :: u32

text \<open>Constants of the Linux kernel headers.\<close>

definition ETH_HLEN :: u32 where "ETH_HLEN = 14"
definition NSEC_PER_SEC :: u64 where "NSEC_PER_SEC = 1000000000"
definition SKBTX_HW_TSTAMP :: u8 where "SKBTX_HW_TSTAMP = 1"
definition SKBTX_IN_PROGRESS :: u8 where "SKBTX_IN_PROGRESS = 4"
definition EFAULT :: int where "EFAULT = 14"
definition EINVAL :: int where "EINVAL = 22"
definition HWTSTAMP_TX_OFF :: int where "HWTSTAMP_TX_OFF = 0"
definition HWTSTAMP_TX_ON :: int where "HWTSTAMP_TX_ON = 1"
definition HWTSTAMP_FILTER_NONE :: int where "HWTSTAMP_FILTER_NONE = 0"
definition HWTSTAMP_FILTER_PTP_V2_L4_EVENT :: int where "HWTSTAMP_FILTER_PTP_V2_L4_EVENT = 6"
definition HWTSTAMP_FILTER_PTP_V2_L4_SYNC :: int where "HWTSTAMP_FILTER_PTP_V2_L4_SYNC = 7"
definition HWTSTAMP_FILTER_PTP_V2_L4_DELAY_REQ :: int where
  "HWTSTAMP_FILTER_PTP_V2_L4_DELAY_REQ = 8"

text \<open>
  Calls into the kernel and the rest of the driver that leave the code of timestamp.c are
  recorded, in order, in a trace. \<open>Dev_err\<close> stands for the two \<^verbatim>\<open>dev_err\<close> messages
  of the interrupt handler and \<open>Net_err\<close> for the rate-limited message of the submit path.
\<close>

datatype event =
    Kfree nat
  | Tstamp_tx nat u64
  | Irq_enable u32
  | Irq_disable u32
  | Write_pp_config u32 u32
  | Stop_queue
  | Start_queue
  | Schedule_work
  | Cancel_work_sync
  | Dev_err_buffer_full
  | Dev_err_no_start_of_ts
  | Net_err_ring_full

text \<open>What stops the kernel instead of returning: a bad pointer or an index outside an array.\<close>

datatype error =
    Bad_skb_pointer nat
  | Double_free nat
  | Index_out_of_bounds int

text \<open>
  The state: the fields of \<^verbatim>\<open>struct ra_net_priv\<close> used by timestamp.c (the members of
  \<^verbatim>\<open>priv->tx_ts\<close> and \<^verbatim>\<open>priv->rx_ts_enable\<close>), followed by the surroundings the code
  acts on. Packet pointers are addresses (\<open>0\<close> is \<^verbatim>\<open>NULL\<close>); \<open>skbs\<close> maps the
  address of every live packet to its contents. \<open>pp_config\<close> is the hardware register
  \<^verbatim>\<open>RA_NET_PP_CONFIG\<close>; \<open>pp_irq_en\<close> is the set of enabled interrupt sources, one
  bit each. \<open>fifo\<close> gives the word returned by each successive read of
  \<^verbatim>\<open>RA_NET_TX_TIMESTAMP_FIFO\<close> and \<open>pp_irqs\<close> the value of each successive read of
  \<^verbatim>\<open>RA_NET_PP_IRQS\<close>; the positions count the reads made so far.
\<close>

record state =
  tx_ts_enable :: bool
  reenable_irq :: bool
  skb_wr_idx :: nat
  skb_rd_idx :: nat
  skb_ptr :: "nat list"
  ts_wr_idx :: nat
  ts_rd_idx :: nat
  fpga_ts :: "ptp_packet_fpga_timestamp list"
  rx_ts_enable :: bool
  skbs :: "nat \<Rightarrow> sk_buff option"
  pp_config :: u32
  pp_irq_en :: u32
  fifo :: "nat \<Rightarrow> u32"
  fifo_pos :: nat
  pp_irqs :: "nat \<Rightarrow> u32"
  pp_irqs_pos :: nat
  trace :: "event list"

section \<open>Receive-side stamping\<close>

text \<open>\<^verbatim>\<open>ns_to_ktime\<close> of the kernel: a \<^verbatim>\<open>ktime_t\<close> is the nanosecond count itself.\<close>

definition ns_to_ktime :: "u64 \<Rightarrow> u64" where
  "ns_to_ktime ns = ns"

text \<open>
  \<^verbatim>\<open>(s64)ts->seconds * NSEC_PER_SEC + ts->nanoseconds\<close>: both 32-bit fields are widened
  to 64 bits without sign.
\<close>

definition ts_to_ns :: "ptp_packet_fpga_timestamp \<Rightarrow> u64" where
  "ts_to_ns ts = ucast (seconds ts) * NSEC_PER_SEC + ucast (nanoseconds ts)"

definition ra_net_rx_skb_stamp ::
  "params \<Rightarrow> state \<Rightarrow> nat \<Rightarrow> ptp_packet_fpga_timestamp \<Rightarrow> error + state" where
  "ra_net_rx_skb_stamp P s skb ts =
     (case skbs s skb of
        None \<Rightarrow> Inl (Bad_skb_pointer skb)
      | Some b \<Rightarrow>
          if \<not> rx_ts_enable s then Inr s
          else if ucast (start_of_ts ts) \<noteq> RA_NET_TX_TIMESTAMP_START_OF_TS P then Inr s
          else Inr (s\<lparr>skbs := (skbs s)(skb \<mapsto> b\<lparr>hwtstamp := ns_to_ktime (ts_to_ns ts)\<rparr>)\<rparr>))"

section \<open>Collaborators outside timestamp.c\<close>

text \<open>
  \<^verbatim>\<open>dev_kfree_skb\<close> and \<^verbatim>\<open>dev_kfree_skb_any\<close> of the kernel: nothing happens for
  \<^verbatim>\<open>NULL\<close>; a live packet is released; releasing an address that holds no live packet
  corrupts the kernel's memory and is an error here.
\<close>

definition dev_kfree_skb :: "state \<Rightarrow> nat \<Rightarrow> error + state" where
  "dev_kfree_skb s p =
     (if p = 0 then Inr s
      else case skbs s p of
             None \<Rightarrow> Inl (Double_free p)
           | Some b \<Rightarrow> Inr (s\<lparr>skbs := (skbs s)(p := None), trace := trace s @ [Kfree p]\<rparr>))"

definition dev_kfree_skb_any :: "state \<Rightarrow> nat \<Rightarrow> error + state" where
  "dev_kfree_skb_any s p = dev_kfree_skb s p"

text \<open>\<^verbatim>\<open>skb_tstamp_tx\<close> of the kernel hands the timestamp of a packet to its socket.\<close>

definition skb_tstamp_tx :: "state \<Rightarrow> nat \<Rightarrow> u64 \<Rightarrow> state" where
  "skb_tstamp_tx s p hw = s\<lparr>trace := trace s @ [Tstamp_tx p hw]\<rparr>"

definition schedule_work :: "state \<Rightarrow> state" where
  "schedule_work s = s\<lparr>trace := trace s @ [Schedule_work]\<rparr>"

definition cancel_work_sync :: "state \<Rightarrow> state" where
  "cancel_work_sync s = s\<lparr>trace := trace s @ [Cancel_work_sync]\<rparr>"

definition netif_stop_queue :: "state \<Rightarrow> state" where
  "netif_stop_queue s = s\<lparr>trace := trace s @ [Stop_queue]\<rparr>"

definition netif_start_queue :: "state \<Rightarrow> state" where
  "netif_start_queue s = s\<lparr>trace := trace s @ [Start_queue]\<rparr>"

text \<open>
  Modelled from the spec: \<^verbatim>\<open>ra_net_pp_irq_enable\<close> and \<^verbatim>\<open>ra_net_pp_irq_disable\<close> are
  defined outside timestamp.c; the spec gives them as \<^verbatim>\<open>enable_irq_source(id)\<close> and
  \<^verbatim>\<open>disable_irq_source(id)\<close> of the interrupt controller.
\<close>

definition ra_net_pp_irq_enable :: "state \<Rightarrow> u32 \<Rightarrow> state" where
  "ra_net_pp_irq_enable s irq =
     s\<lparr>pp_irq_en := pp_irq_en s OR irq, trace := trace s @ [Irq_enable irq]\<rparr>"

definition ra_net_pp_irq_disable :: "state \<Rightarrow> u32 \<Rightarrow> state" where
  "ra_net_pp_irq_disable s irq =
     s\<lparr>pp_irq_en := pp_irq_en s AND NOT irq, trace := trace s @ [Irq_disable irq]\<rparr>"

text \<open>
  Modelled from the spec: the register primitives are defined outside timestamp.c; the spec
  gives them as \<^verbatim>\<open>read_register(addr)\<close>, \<^verbatim>\<open>read_repeated(addr, buffer, len)\<close> and
  \<^verbatim>\<open>write_register_masked(addr, mask, value)\<close>, all assumed to succeed. A read of the
  timestamp FIFO takes the next word of the stream; a repeated read of \<open>n\<close> bytes takes
  \<open>n div 4\<close> words; a masked write to \<^verbatim>\<open>RA_NET_PP_CONFIG\<close> replaces the masked bits, and
  the register keeps what was written.
\<close>

definition ra_net_ior_rep_fifo :: "state \<Rightarrow> nat \<Rightarrow> u32 list \<times> state" where
  "ra_net_ior_rep_fifo s n =
     (map (fifo s) [fifo_pos s ..< fifo_pos s + n div 4], s\<lparr>fifo_pos := fifo_pos s + n div 4\<rparr>)"

definition ra_net_ior_pp_irqs :: "state \<Rightarrow> u32 \<times> state" where
  "ra_net_ior_pp_irqs s = (pp_irqs s (pp_irqs_pos s), s\<lparr>pp_irqs_pos := pp_irqs_pos s + 1\<rparr>)"

definition ra_net_iow_mask_pp_config :: "state \<Rightarrow> u32 \<Rightarrow> u32 \<Rightarrow> state" where
  "ra_net_iow_mask_pp_config s msk val =
     s\<lparr>pp_config := (pp_config s AND NOT msk) OR val,
       trace := trace s @ [Write_pp_config msk val]\<rparr>"

section \<open>Interrupt producer: \<^verbatim>\<open>ra_net_tx_ts_irq\<close>\<close>

text \<open>
  The scan loop of lines 45 to 50,
  \<^verbatim>\<open>for (ctr = sizeof(*ts_packet) / sizeof(u32); ctr >= 0; ctr--)\<close>, with \<^verbatim>\<open>ctr\<close> a
  \<^verbatim>\<open>u32\<close>: the loop test compares an unsigned counter with zero and \<^verbatim>\<open>ctr--\<close> wraps.
  The arguments are the FIFO stream, the number of words read so far, the counter and the
  last word read; the result is the counter, the last word and the read position when the
  loop is left, \<open>None\<close> when it is never left.
\<close>

partial_function (option) scan_sot ::
  "params \<Rightarrow> (nat \<Rightarrow> u32) \<Rightarrow> nat \<Rightarrow> u32 \<Rightarrow> u32 \<Rightarrow> (u32 \<times> u32 \<times> nat) option" where
  "scan_sot P f pos ctr sot =
     (if 0 \<le> ctr then
        (if drop_bit 16 (f pos) = RA_NET_TX_TIMESTAMP_START_OF_TS P
         then Some (ctr, f pos, pos + 1)
         else scan_sot P f (pos + 1) (ctr - 1) (f pos))
      else Some (ctr, sot, pos))"

declare scan_sot.simps [code]

text \<open>
  The handler. \<^verbatim>\<open>wr_idx\<close> is a \<^verbatim>\<open>u16\<close>. The register read inside \<^verbatim>\<open>dev_dbg\<close> changes
  nothing modelled here and is left out. \<open>None\<close>: the handler never returns.
\<close>

definition ra_net_tx_ts_irq :: "params \<Rightarrow> state \<Rightarrow> state option" where
  "ra_net_tx_ts_irq P s =
     (let wr_idx = ((ts_wr_idx s mod 65536 + 1) mod 65536) mod RA_NET_TX_TS_LIST_SIZE P in
      if wr_idx = ts_rd_idx s then
        Some (ra_net_pp_irq_disable
                (s\<lparr>reenable_irq := True, trace := trace s @ [Dev_err_buffer_full]\<rparr>)
                (RA_NET_PP_IRQ_PTP_TX_TS_IRQ_AVAILABLE P))
      else
        let s1 = s\<lparr>ts_wr_idx := wr_idx\<rparr> in
        case scan_sot P (fifo s1) (fifo_pos s1) (of_nat (SIZEOF_TS_PACKET P div 4)) 0 of
          None \<Rightarrow> None
        | Some (ctr, sot, pos) \<Rightarrow>
            let s2 = s1\<lparr>fifo_pos := pos\<rparr> in
            if ctr = 0 then Some (s2\<lparr>trace := trace s2 @ [Dev_err_no_start_of_ts]\<rparr>)
            else
              let (ws, s3) = ra_net_ior_rep_fifo s2 (SIZEOF_TS_PACKET P - 2);
                  slot = store_ts_words P ws
                           ((fpga_ts s3 ! wr_idx)\<lparr>seconds_hi := ucast (sot AND 0xffff)\<rparr>)
              in Some (schedule_work (s3\<lparr>fpga_ts := (fpga_ts s3)[wr_idx := slot]\<rparr>)))"

section \<open>Matching a timestamp with a packet: \<^verbatim>\<open>ra_net_stamp_tx_skb\<close>\<close>

text \<open>\<^verbatim>\<open>ntohs(*(__be16 *)(data + i))\<close>: two bytes, the first one the high byte.\<close>

definition ntohs_at :: "(nat \<Rightarrow> u8) \<Rightarrow> nat \<Rightarrow> u16" where
  "ntohs_at d i = push_bit 8 (ucast (d i)) OR ucast (d (i + 1))"

text \<open>
  The result is the state and the two output flags \<^verbatim>\<open>*ts_consumed\<close> and
  \<^verbatim>\<open>*skb_consumed\<close>, in this order. The length test adds \<^verbatim>\<open>u32\<close> values (wrapping) and
  then \<^verbatim>\<open>sizeof(packet_seq_id)\<close>, a \<^verbatim>\<open>size_t\<close> of 64 bits.
\<close>

definition ra_net_stamp_tx_skb ::
  "params \<Rightarrow> state \<Rightarrow> nat \<Rightarrow> ptp_packet_fpga_timestamp \<Rightarrow> error + (state \<times> bool \<times> bool)" where
  "ra_net_stamp_tx_skb P s skb ts =
     (case skbs s skb of
        None \<Rightarrow> Inl (Bad_skb_pointer skb)
      | Some b \<Rightarrow>
          let offset = ETH_HLEN + IPV4_HLEN P (data b) + UDP_HLEN P in
          if unat (len b + ETH_HLEN) < unat (offset + OFF_PTP_SEQUENCE_ID P) + 2
          then Inr (s, False, True)
          else
            let packet_seq_id = ntohs_at (data b) (unat offset + unat (OFF_PTP_SEQUENCE_ID P)) in
            if sequence_id ts = packet_seq_id
            then Inr (skb_tstamp_tx s skb (ts_to_ns ts), True, True)
            else if sequence_id ts > packet_seq_id
            then Inr (s, True, False)
            else Inr (s, False, True))"

section \<open>Reconciliation worker: \<^verbatim>\<open>ra_net_tx_ts_work\<close>\<close>

text \<open>
  One pass through the body of the \<^verbatim>\<open>do ... while\<close> loop (lines 155 to 181). The loop
  works on the local copies \<^verbatim>\<open>skb_rd_idx\<close> and \<^verbatim>\<open>ts_rd_idx\<close>, carried next to the state.
\<close>

definition work_body :: "params \<Rightarrow> state \<times> nat \<times> nat \<Rightarrow> error + (state \<times> nat \<times> nat)" where
  "work_body P = (\<lambda>(s, skb_rd, ts_rd).
     let ts_rd1 = (ts_rd + 1) mod RA_NET_TX_TS_LIST_SIZE P;
         skb_rd1 = (skb_rd + 1) mod RA_NET_TX_SKB_LIST_SIZE P;
         skb = skb_ptr s ! skb_rd1;
         ts = fpga_ts s ! ts_rd1
     in case ra_net_stamp_tx_skb P s skb ts of
          Inl e \<Rightarrow> Inl e
        | Inr (s1, ts_consumed, skb_consumed) \<Rightarrow>
            (case (if skb_consumed
                   then (case dev_kfree_skb_any s1 skb of
                           Inl e \<Rightarrow> Inl e
                         | Inr s2 \<Rightarrow> Inr (s2, skb_rd1))
                   else Inr (s1, (skb_rd1 + (RA_NET_TX_SKB_LIST_SIZE P - 1))
                                   mod RA_NET_TX_SKB_LIST_SIZE P)) of
               Inl e \<Rightarrow> Inl e
             | Inr (s2, skb_rd2) \<Rightarrow>
                 Inr (s2, skb_rd2,
                      if \<not> ts_consumed
                      then (ts_rd1 + (RA_NET_TX_TS_LIST_SIZE P - 1)) mod RA_NET_TX_TS_LIST_SIZE P
                      else ts_rd1)))"

text \<open>The \<^verbatim>\<open>do ... while\<close> loop: the body runs before the first test.\<close>

partial_function (option) work_loop ::
  "params \<Rightarrow> nat \<Rightarrow> nat \<Rightarrow> state \<times> nat \<times> nat \<Rightarrow> (error + (state \<times> nat \<times> nat)) option" where
  "work_loop P skb_wr ts_wr l =
     (case work_body P l of
        Inl e \<Rightarrow> Some (Inl e)
      | Inr l' \<Rightarrow>
          if snd (snd l') \<noteq> ts_wr \<and> fst (snd l') \<noteq> skb_wr
          then work_loop P skb_wr ts_wr l'
          else Some (Inr l'))"

declare work_loop.simps [code]

definition ra_net_tx_ts_work :: "params \<Rightarrow> state \<Rightarrow> (error + state) option" where
  "ra_net_tx_ts_work P s =
     (case (if ts_wr_idx s = ts_rd_idx s then Some (Inr s)
            else case work_loop P (skb_wr_idx s) (ts_wr_idx s) (s, skb_rd_idx s, ts_rd_idx s) of
                   None \<Rightarrow> None
                 | Some (Inl e) \<Rightarrow> Some (Inl e)
                 | Some (Inr (s1, skb_rd, ts_rd)) \<Rightarrow>
                     Some (Inr (s1\<lparr>ts_rd_idx := ts_rd, skb_rd_idx := skb_rd\<rparr>))) of
        None \<Rightarrow> None
      | Some (Inl e) \<Rightarrow> Some (Inl e)
      | Some (Inr s2) \<Rightarrow>
          Some (Inr (if reenable_irq s2
                     then ra_net_pp_irq_enable (s2\<lparr>reenable_irq := False\<rparr>)
                            (RA_NET_PP_IRQ_PTP_TX_TS_IRQ_AVAILABLE P)
                     else s2)))"

section \<open>Flush: \<^verbatim>\<open>ra_net_flush_tx_ts\<close>\<close>

text \<open>The \<^verbatim>\<open>for (;;)\<close> loop of lines 206 to 216 that empties the hardware FIFO.\<close>

partial_function (option) drain_fifo :: "params \<Rightarrow> state \<Rightarrow> state option" where
  "drain_fifo P s =
     (if fst (ra_net_ior_pp_irqs s) AND RA_NET_PP_IRQ_PTP_TX_TS_IRQ_AVAILABLE P = 0
      then Some (snd (ra_net_ior_pp_irqs s))
      else drain_fifo P (snd (ra_net_ior_rep_fifo (snd (ra_net_ior_pp_irqs s))
                                (SIZEOF_TS_PACKET P))))"

declare drain_fifo.simps [code]

text \<open>
  The \<^verbatim>\<open>while\<close> loop of lines 219 to 224. It releases \<^verbatim>\<open>skb_ptr[rd_idx]\<close>, where
  \<^verbatim>\<open>rd_idx\<close> is a local variable of the function that is never assigned: its value is
  whatever the stack holds, an argument here. An index outside the array is an error.
\<close>

partial_function (option) free_pending ::
  "params \<Rightarrow> int \<Rightarrow> state \<Rightarrow> (error + state) option" where
  "free_pending P rd_idx s =
     (if skb_rd_idx s \<noteq> skb_wr_idx s then
        (if 0 \<le> rd_idx \<and> rd_idx < int (RA_NET_TX_SKB_LIST_SIZE P) then
           (case dev_kfree_skb s (skb_ptr s ! nat rd_idx) of
              Inl e \<Rightarrow> Some (Inl e)
            | Inr s1 \<Rightarrow>
                free_pending P rd_idx
                  (s1\<lparr>skb_rd_idx := (skb_rd_idx s1 + 1) mod RA_NET_TX_SKB_LIST_SIZE P\<rparr>))
         else Some (Inl (Index_out_of_bounds rd_idx)))
      else Some (Inr s))"

declare free_pending.simps [code]

definition ra_net_flush_tx_ts :: "params \<Rightarrow> int \<Rightarrow> state \<Rightarrow> (error + state) option" where
  "ra_net_flush_tx_ts P rd_idx s =
     (case drain_fifo P (cancel_work_sync s) of
        None \<Rightarrow> None
      | Some s1 \<Rightarrow>
          (case free_pending P rd_idx s1 of
             None \<Rightarrow> None
           | Some (Inl e) \<Rightarrow> Some (Inl e)
           | Some (Inr s2) \<Rightarrow>
               Some (Inr (s2\<lparr>skb_rd_idx := 0, skb_wr_idx := 0,
                             ts_rd_idx := 0, ts_wr_idx := 0\<rparr>))))"

section \<open>Submission gate: \<^verbatim>\<open>ra_net_tx_ts_send\<close>\<close>

definition ra_net_tx_ts_send :: "params \<Rightarrow> state \<Rightarrow> nat \<Rightarrow> error + (bool \<times> state)" where
  "ra_net_tx_ts_send P s skb =
     (case skbs s skb of
        None \<Rightarrow> Inl (Bad_skb_pointer skb)
      | Some b \<Rightarrow>
          if \<not> tx_ts_enable s then Inr (True, s)
          else if tx_flags b AND SKBTX_HW_TSTAMP \<noteq> 0 then
            (let s1 = s\<lparr>skb_wr_idx := (skb_wr_idx s + 1) mod RA_NET_TX_SKB_LIST_SIZE P\<rparr> in
             case (if skb_wr_idx s1 = skb_rd_idx s1 then
                     (let s2 = s1\<lparr>skb_rd_idx :=
                                    (skb_rd_idx s1 + 1) mod RA_NET_TX_SKB_LIST_SIZE P\<rparr>;
                          old_skb = skb_ptr s2 ! skb_rd_idx s2
                      in case dev_kfree_skb_any s2 old_skb of
                           Inl e \<Rightarrow> Inl e
                         | Inr s3 \<Rightarrow> Inr (s3\<lparr>trace := trace s3 @ [Net_err_ring_full]\<rparr>))
                   else Inr s1) of
               Inl e \<Rightarrow> Inl e
             | Inr s4 \<Rightarrow>
                 (let s5 = s4\<lparr>skb_ptr := (skb_ptr s4)[skb_wr_idx s4 := skb]\<rparr> in
                  case skbs s5 skb of
                    None \<Rightarrow> Inl (Bad_skb_pointer skb)
                  | Some b' \<Rightarrow>
                      Inr (False,
                           s5\<lparr>skbs := (skbs s5)
                                 (skb \<mapsto> b'\<lparr>tx_flags := tx_flags b' OR SKBTX_IN_PROGRESS\<rparr>)\<rparr>)))
          else Inr (True, s))"

section \<open>Configuration: \<^verbatim>\<open>ra_net_tx_ts_config\<close> and \<^verbatim>\<open>ra_net_hwtstamp_ioctl\<close>\<close>

definition ra_net_tx_ts_config :: "params \<Rightarrow> state \<Rightarrow> state" where
  "ra_net_tx_ts_config P s =
     (let val = pp_config s;
          have = (val AND RA_NET_PP_CONFIG_ENABLE_PTP_TIMESTAMPS P \<noteq> 0);
          want = (tx_ts_enable s \<or> rx_ts_enable s)
      in if have = want then s
         else
           let s1 = netif_stop_queue s;
               s2 = ra_net_iow_mask_pp_config s1 (RA_NET_PP_CONFIG_ENABLE_PTP_TIMESTAMPS P)
                      (if want then RA_NET_PP_CONFIG_ENABLE_PTP_TIMESTAMPS P else 0);
               s3 = (if want
                     then ra_net_pp_irq_enable s2 (RA_NET_PP_IRQ_PTP_TX_TS_IRQ_AVAILABLE P)
                     else ra_net_pp_irq_disable s2 (RA_NET_PP_IRQ_PTP_TX_TS_IRQ_AVAILABLE P))
           in netif_start_queue s3)"

text \<open>\<^verbatim>\<open>struct hwtstamp_config\<close> of the kernel: three \<^verbatim>\<open>int\<close> fields.\<close>

record hwtstamp_config =
  flags :: int
  tx_type :: int
  rx_filter :: int

text \<open>
  The request is what \<^verbatim>\<open>copy_from_user\<close> finds behind \<^verbatim>\<open>ifr->ifr_data\<close> (\<open>None\<close> when
  the copy faults), and \<open>writable\<close> tells whether \<^verbatim>\<open>copy_to_user\<close> succeeds. The result
  is the return value, the configuration written back to the caller, if any, and the state.
\<close>

definition ra_net_hwtstamp_ioctl ::
  "params \<Rightarrow> state \<Rightarrow> hwtstamp_config option \<Rightarrow> bool \<Rightarrow> int \<times> hwtstamp_config option \<times> state"
  where
  "ra_net_hwtstamp_ioctl P s ifr_data writable =
     (case ifr_data of
        None \<Rightarrow> (- EFAULT, None, s)
      | Some config \<Rightarrow>
          if flags config \<noteq> 0 then (- EINVAL, None, s)
          else
            (case (if tx_type config = HWTSTAMP_TX_OFF
                   then Some (ra_net_tx_ts_config P (s\<lparr>tx_ts_enable := False\<rparr>))
                   else if tx_type config = HWTSTAMP_TX_ON
                   then Some (ra_net_tx_ts_config P (s\<lparr>tx_ts_enable := True\<rparr>))
                   else None) of
               None \<Rightarrow> (- EINVAL, None, s)
             | Some s1 \<Rightarrow>
                 (case (if rx_filter config = HWTSTAMP_FILTER_NONE
                        then Some (ra_net_tx_ts_config P (s1\<lparr>rx_ts_enable := False\<rparr>), config)
                        else if rx_filter config = HWTSTAMP_FILTER_PTP_V2_L4_EVENT
                              \<or> rx_filter config = HWTSTAMP_FILTER_PTP_V2_L4_SYNC
                              \<or> rx_filter config = HWTSTAMP_FILTER_PTP_V2_L4_DELAY_REQ
                        then Some (ra_net_tx_ts_config P (s1\<lparr>rx_ts_enable := True\<rparr>),
                                   config\<lparr>rx_filter := HWTSTAMP_FILTER_PTP_V2_L4_EVENT\<rparr>)
                        else None) of
                    None \<Rightarrow> (- EINVAL, None, s1)
                  | Some (s2, config') \<Rightarrow>
                      if writable then (0, Some config', s2) else (- EFAULT, None, s2))))"

section \<open>Ring bookkeeping\<close>

text \<open>Number of unread entries of a ring of \<open>n\<close> slots.\<close>

definition occupancy :: "nat \<Rightarrow> nat \<Rightarrow> nat \<Rightarrow> nat" where
  "occupancy n rd wr = (wr + n - rd) mod n"

text \<open>
  The states the driver works on: both arrays have their declared sizes, at least two
  slots each, and the four indices lie inside them.
\<close>

definition rings_ok :: "params \<Rightarrow> state \<Rightarrow> bool" where
  "rings_ok P s =
     (2 \<le> RA_NET_TX_TS_LIST_SIZE P \<and> RA_NET_TX_TS_LIST_SIZE P \<le> 65536 \<and>
      2 \<le> RA_NET_TX_SKB_LIST_SIZE P \<and>
      length (skb_ptr s) = RA_NET_TX_SKB_LIST_SIZE P \<and>
      length (fpga_ts s) = RA_NET_TX_TS_LIST_SIZE P \<and>
      skb_wr_idx s < RA_NET_TX_SKB_LIST_SIZE P \<and> skb_rd_idx s < RA_NET_TX_SKB_LIST_SIZE P \<and>
      ts_wr_idx s < RA_NET_TX_TS_LIST_SIZE P \<and> ts_rd_idx s < RA_NET_TX_TS_LIST_SIZE P)"

text \<open>
  The entries of the Pending-Packet Ring that are still unread, oldest first: the worker reads
  the slot after the read index first, and the write index is the slot written last.
\<close>

definition pending :: "params \<Rightarrow> state \<Rightarrow> nat list" where
  "pending P s =
     map (\<lambda>k. skb_ptr s ! ((skb_rd_idx s + k) mod RA_NET_TX_SKB_LIST_SIZE P))
       [1 ..< occupancy (RA_NET_TX_SKB_LIST_SIZE P) (skb_rd_idx s) (skb_wr_idx s) + 1]"

text \<open>The feature bit of the hardware agrees with the two mode flags.\<close>

definition hw_matches :: "params \<Rightarrow> state \<Rightarrow> bool" where
  "hw_matches P s = ((pp_config s AND RA_NET_PP_CONFIG_ENABLE_PTP_TIMESTAMPS P \<noteq> 0) = (tx_ts_enable s \<or> rx_ts_enable s))"

text \<open>The calls of the trace by which a packet is completed or released.\<close>

definition is_packet_event :: "event \<Rightarrow> bool" where
  "is_packet_event e = (case e of Kfree _ \<Rightarrow> True | Tstamp_tx _ _ \<Rightarrow> True | _ \<Rightarrow> False)"

text \<open>
  Number of passes a read index can still make before it meets the write index, counting a
  full turn when both are equal (the body of a \<^verbatim>\<open>do ... while\<close> loop runs before the
  test).
\<close>

definition steps_left :: "nat \<Rightarrow> nat \<Rightarrow> nat \<Rightarrow> nat" where
  "steps_left n rd wr = (if rd = wr then n else (wr + n - rd) mod n)"

text \<open>
  What the matching loop may do between two of its states: the re-enable flag and the
  interrupt enables stay as they are, and the trace grows by packet completions and releases
  only.
\<close>

definition loop_frame :: "state \<Rightarrow> state \<Rightarrow> bool" where
  "loop_frame s s' =
     (reenable_irq s' = reenable_irq s \<and> pp_irq_en s' = pp_irq_en s \<and>
      take (length (trace s)) (trace s') = trace s \<and>
      list_all is_packet_event (drop (length (trace s)) (trace s')))"

section \<open>Concrete inputs\<close>

definition ts0 :: ptp_packet_fpga_timestamp where
  "ts0 = \<lparr>start_of_ts = 0, seconds_hi = 0, seconds = 0, nanoseconds = 0, sequence_id = 0\<rparr>"

text \<open>
  One choice of values for the constants that \<^verbatim>\<open>main.h\<close> declares, used by the concrete
  inputs below: rings of four slots, the marker \<^verbatim>\<open>0x1588\<close>, a 16-byte timestamp struct
  whose three words after the first are the seconds, the nanoseconds and the sequence id in
  the high half of the last word, the IPv4 header length taken from the low nibble of byte
  14, a PTP sequence id at offset 30 of the PTP message.
\<close>

definition P0 :: params where
  "P0 = \<lparr>RA_NET_TX_TS_LIST_SIZE = 4,
         RA_NET_TX_SKB_LIST_SIZE = 4,
         RA_NET_TX_TIMESTAMP_START_OF_TS = 0x1588,
         SIZEOF_TS_PACKET = 16,
         store_ts_words = (\<lambda>ws t. t\<lparr>seconds := ws ! 0, nanoseconds := ws ! 1,
                                     sequence_id := ucast (drop_bit 16 (ws ! 2))\<rparr>),
         IPV4_HLEN = (\<lambda>d. push_bit 2 (ucast (d 14 AND 0x0F))),
         UDP_HLEN = 8,
         OFF_PTP_SEQUENCE_ID = 30,
         RA_NET_PP_CONFIG_ENABLE_PTP_TIMESTAMPS = 1,
         RA_NET_PP_IRQ_PTP_TX_TS_IRQ_AVAILABLE = 2\<rparr>"

definition skb0 :: sk_buff where
  "skb0 = \<lparr>len = 0, data = (\<lambda>_. 0), tx_flags = 0, hwtstamp = 0\<rparr>"

text \<open>A freshly zeroed device: empty rings, every pointer \<^verbatim>\<open>NULL\<close>, nothing enabled.\<close>

definition s0 :: state where
  "s0 = \<lparr>tx_ts_enable = False, reenable_irq = False,
         skb_wr_idx = 0, skb_rd_idx = 0, skb_ptr = [0, 0, 0, 0],
         ts_wr_idx = 0, ts_rd_idx = 0, fpga_ts = [ts0, ts0, ts0, ts0],
         rx_ts_enable = False,
         skbs = Map.empty, pp_config = 0, pp_irq_en = 0,
         fifo = (\<lambda>_. 0), fifo_pos = 0, pp_irqs = (\<lambda>_. 0), pp_irqs_pos = 0,
         trace = []\<rparr>"

text \<open>
  A PTP event message over IPv4 and UDP with the given sequence id: 86 bytes, an IPv4
  header of 20 bytes, the sequence id in bytes 72 and 73.
\<close>

definition ptp_data :: "u16 \<Rightarrow> nat \<Rightarrow> u8" where
  "ptp_data seq i =
     (if i = 14 then 0x45
      else if i = 72 then ucast (drop_bit 8 seq)
      else if i = 73 then ucast seq
      else 0)"

definition ptp_skb :: "u16 \<Rightarrow> sk_buff" where
  "ptp_skb seq = \<lparr>len = 86, data = ptp_data seq, tx_flags = SKBTX_HW_TSTAMP, hwtstamp = 0\<rparr>"

text \<open>A timestamp record of 2 s and 5 ns with the given sequence id.\<close>

definition ts_seq :: "u16 \<Rightarrow> ptp_packet_fpga_timestamp" where
  "ts_seq n = \<lparr>start_of_ts = 0x1588, seconds_hi = 0, seconds = 2, nanoseconds = 5,
              sequence_id = n\<rparr>"

text \<open>
  One packet with sequence id 11 pending in slot 1 of the Pending-Packet Ring, and one
  timestamp with the given sequence id waiting in slot 1 of the Timestamp Ring.
\<close>

definition s_pair :: "u16 \<Rightarrow> state" where
  "s_pair n = s0\<lparr>tx_ts_enable := True,
                 skb_wr_idx := 1, skb_ptr := [0, 100, 0, 0],
                 ts_wr_idx := 1, fpga_ts := [ts0, ts_seq n, ts0, ts0],
                 skbs := [100 \<mapsto> ptp_skb 11]\<rparr>"

text \<open>An empty Pending-Packet Ring and one timestamp waiting.\<close>

definition s_ts_only :: state where
  "s_ts_only = s0\<lparr>ts_wr_idx := 1, fpga_ts := [ts0, ts_seq 11, ts0, ts0]\<rparr>"

text \<open>
  The same after the ring has been used: slot 1 still holds the address of a packet that
  was matched and released earlier.
\<close>

definition s_ts_only_stale :: state where
  "s_ts_only_stale = s_ts_only\<lparr>skb_ptr := [0, 100, 0, 0]\<rparr>"

text \<open>Two packets pending in slots 1 and 2, read index 0, no timestamp, FIFO empty.\<close>

definition s_two_pending :: state where
  "s_two_pending = s0\<lparr>tx_ts_enable := True,
                      skb_wr_idx := 2, skb_ptr := [0, 100, 101, 0],
                      skbs := [100 \<mapsto> ptp_skb 11, 101 \<mapsto> ptp_skb 12]\<rparr>"

text \<open>Receive timestamping enabled and one live packet at address 100.\<close>

definition s_rx :: state where
  "s_rx = s0\<lparr>rx_ts_enable := True, skbs := [100 \<mapsto> ptp_skb 11]\<rparr>"

text \<open>
  A full Pending-Packet Ring: three packets pending in slots 1 to 3, and a fourth packet at
  address 103 about to be submitted.
\<close>

definition s_full :: state where
  "s_full = s0\<lparr>tx_ts_enable := True,
               skb_wr_idx := 3, skb_ptr := [0, 100, 101, 102],
               skbs := [100 \<mapsto> ptp_skb 5, 101 \<mapsto> ptp_skb 6, 102 \<mapsto> ptp_skb 7,
                        103 \<mapsto> ptp_skb 8]\<rparr>"

text \<open>The fresh device after transmit timestamping has been switched on.\<close>

definition s_tx_on :: state where
  "s_tx_on = s0\<lparr>tx_ts_enable := True, pp_config := 1, pp_irq_en := 2,
        trace := [Stop_queue, Write_pp_config 1 1, Irq_enable 2, Start_queue]\<rparr>"

text \<open>Receive timestamping on, the hardware configured for it.\<close>

definition s_rx_on :: state where
  "s_rx_on = s0\<lparr>rx_ts_enable := True, pp_config := 1, pp_irq_en := 2\<rparr>"

text \<open>
  A FIFO whose first four words (the size of a record) carry no marker and whose fifth word
  does.
\<close>

definition s_late_marker :: state where
  "s_late_marker = s0\<lparr>fifo := (\<lambda>i. if i = 4 then 0x15880000 else 0)\<rparr>"

text \<open>
  A full Timestamp Ring (three records in four slots) with the interrupt enabled, and one
  pending packet that is too short to hold a PTP sequence id; the state after the interrupt
  handler has run on it, and the state after the worker has run on that.
\<close>

definition s_ts_full :: state where
  "s_ts_full = s0\<lparr>tx_ts_enable := True, pp_config := 1, pp_irq_en := 2,
                  ts_wr_idx := 3, fpga_ts := [ts0, ts_seq 10, ts_seq 11, ts_seq 12],
                  skb_wr_idx := 1, skb_ptr := [0, 100, 0, 0],
                  skbs := [100 \<mapsto> skb0]\<rparr>"

definition s_ts_full_off :: state where
  "s_ts_full_off = s_ts_full\<lparr>reenable_irq := True, pp_irq_en := 0,
                             trace := [Dev_err_buffer_full, Irq_disable 2]\<rparr>"

definition s_ts_full_on :: state where
  "s_ts_full_on = s_ts_full\<lparr>skb_rd_idx := 1, skbs := Map.empty,
                            trace := [Dev_err_buffer_full, Irq_disable 2, Kfree 100, Irq_enable 2]\<rparr>"

text \<open>The same with a pending PTP packet whose sequence id matches the oldest timestamp.\<close>

definition s_match_full :: state where
  "s_match_full = s_ts_full\<lparr>skbs := [100 \<mapsto> ptp_skb 10]\<rparr>"

definition s_match_off :: state where
  "s_match_off = s_match_full\<lparr>reenable_irq := True, pp_irq_en := 0,
                             trace := [Dev_err_buffer_full, Irq_disable 2]\<rparr>"

definition s_match_on :: state where
  "s_match_on = s_match_full\<lparr>skb_rd_idx := 1, ts_rd_idx := 1, skbs := Map.empty,
       trace := [Dev_err_buffer_full, Irq_disable 2, Tstamp_tx 100 2000000005, Kfree 100,
                 Irq_enable 2]\<rparr>"

text \<open>
  A device with one PTP packet of sequence id 0 pending, whose FIFO carries no marker in its
  first four words, a marker in the fifth, and then the record of that packet (2 s, 5 ns,
  sequence id 0); the states after a first interrupt, after a second interrupt, and after
  the worker scheduled by the second.
\<close>

definition s_lost :: state where
  "s_lost = s0\<lparr>tx_ts_enable := True, pp_config := 1, pp_irq_en := 2,
               skb_wr_idx := 1, skb_ptr := [0, 100, 0, 0],
               skbs := [100 \<mapsto> ptp_skb 0],
               fifo := (\<lambda>i. if i = 4 \<or> i = 5 then 0x15880000
                             else if i = 6 then 2 else if i = 7 then 5 else 0)\<rparr>"

definition s_lost_aborted :: state where
  "s_lost_aborted = s_lost\<lparr>ts_wr_idx := 1, fifo_pos := 5, trace := [Dev_err_no_start_of_ts]\<rparr>"

definition s_lost_next :: state where
  "s_lost_next = s_lost\<lparr>ts_wr_idx := 2, fifo_pos := 9,
                        fpga_ts := [ts0, ts0, ts0\<lparr>seconds := 2, nanoseconds := 5\<rparr>, ts0],
                        trace := [Dev_err_no_start_of_ts, Schedule_work]\<rparr>"

definition s_lost_done :: state where
  "s_lost_done = s_lost_next\<lparr>ts_rd_idx := 1, skb_rd_idx := 1, skbs := Map.empty,
       trace := [Dev_err_no_start_of_ts, Schedule_work, Tstamp_tx 100 0, Kfree 100]\<rparr>"

section \<open>Properties\<close>

lemmas concrete_defs =
  s_pair_def s_ts_only_def s_ts_only_stale_def s_two_pending_def s_rx_def s_full_def
  s_tx_on_def s_ts_full_def s_ts_full_off_def s_ts_full_on_def skb0_def s0_def P0_def
  ts_seq_def ts0_def ptp_skb_def ptp_data_def ETH_HLEN_def ntohs_at_def SKBTX_HW_TSTAMP_def

lemma widen_mult_add:
  fixes a b :: u32
  shows "(ucast a :: u64) * 1000000000 + ucast b = word_of_int (uint a * 1000000000 + uint b)"
  by (simp only: ucast_eq word_of_int_numeral [symmetric] wi_hom_syms)

lemma widen_mult_add_bound:
  fixes a b :: u32
  shows "uint a * 1000000000 + uint b < 2 ^ 63"
proof -
  have a: "uint a < 2 ^ 32" and b: "uint b < 2 ^ 32"
    using uint_bounded [of a] uint_bounded [of b] by simp_all
  have "uint a * 1000000000 \<le> (2 ^ 32 - 1) * 1000000000"
    using a by simp
  then show ?thesis using b by simp
qed

lemma sint_word_of_int_small:
  "0 \<le> v \<Longrightarrow> v < 2 ^ 63 \<Longrightarrow> sint (word_of_int v :: u64) = v"
  by (simp add: sint_sbintrunc' signed_take_bit_int_eq_self)

lemma ts_to_ns_sint:
  "sint (ts_to_ns ts) = uint (seconds ts) * 1000000000 + uint (nanoseconds ts)"
proof -
  have "ts_to_ns ts = word_of_int (uint (seconds ts) * 1000000000 + uint (nanoseconds ts))"
    unfolding ts_to_ns_def NSEC_PER_SEC_def by (rule widen_mult_add)
  moreover have "0 \<le> uint (seconds ts) * 1000000000 + uint (nanoseconds ts)"
    by simp
  ultimately show ?thesis
    using widen_mult_add_bound [of "seconds ts" "nanoseconds ts"]
    by (simp only: sint_word_of_int_small)
qed

subsection \<open>Receive-side stamping\<close>

text \<open>
  C10. Receive-side stamping of a live packet: when rx timestamping is disabled or the
  record's \<open>start_of_ts\<close> is not the marker constant, the state (packet metadata, rings,
  everything else) is returned unchanged; otherwise the only change is the packet's hardware
  timestamp, which becomes \<open>seconds * 1000000000 + nanoseconds\<close> read as a signed 64-bit
  value.
\<close>

theorem ra_net_rx_skb_stamp_frame:
  assumes "skbs s skb = Some b"
  shows "\<exists>v. sint v = uint (seconds ts) * 1000000000 + uint (nanoseconds ts) \<and>
    ra_net_rx_skb_stamp P s skb ts =
      Inr (if rx_ts_enable s \<and> ucast (start_of_ts ts) = RA_NET_TX_TIMESTAMP_START_OF_TS P
           then s\<lparr>skbs := (skbs s)(skb \<mapsto> b\<lparr>hwtstamp := v\<rparr>)\<rparr>
           else s)"
  using assms ts_to_ns_sint [of ts]
  by (intro exI [of _ "ts_to_ns ts"]) (simp add: ra_net_rx_skb_stamp_def ns_to_ktime_def)

theorem ra_net_rx_skb_stamp_frame_witness:
  "skbs s_rx 100 = Some (ptp_skb 11) \<and>
   (\<exists>v. sint v = 2000000005 \<and>
      ra_net_rx_skb_stamp P0 s_rx 100 (ts_seq 11) =
        Inr (s_rx\<lparr>skbs := (skbs s_rx)(100 \<mapsto> (ptp_skb 11)\<lparr>hwtstamp := v\<rparr>)\<rparr>))"
proof -
  have h: "skbs s_rx 100 = Some (ptp_skb 11)" by (simp add: s_rx_def)
  show ?thesis
    using h ra_net_rx_skb_stamp_frame [OF h, of "ts_seq 11" P0]
    by (simp add: s_rx_def s0_def ts_seq_def P0_def)
qed

subsection \<open>Classification of a timestamp and a packet\<close>

text \<open>
  C1. The code at a pending packet with sequence id 11. With a timestamp of sequence id 12
  (greater), \<open>ra_net_stamp_tx_skb\<close> returns \<open>ts_consumed = True\<close> and
  \<open>skb_consumed = False\<close>, and the worker advances the timestamp read index, leaves the
  packet read index where it was and releases nothing: the timestamp is consumed and the
  packet is kept. With a timestamp of sequence id 10 (less), it returns
  \<open>ts_consumed = False\<close> and \<open>skb_consumed = True\<close>, and the worker releases the packet
  and keeps the timestamp. Both are the reverse of the classification of the claim and of the
  comments in the two branches of the source.
\<close>

theorem ra_net_stamp_tx_skb_mismatch_reversed:
  "ra_net_stamp_tx_skb P0 (s_pair 12) 100 (ts_seq 12) = Inr (s_pair 12, True, False) \<and>
   ra_net_stamp_tx_skb P0 (s_pair 10) 100 (ts_seq 10) = Inr (s_pair 10, False, True) \<and>
   ra_net_tx_ts_work P0 (s_pair 12) = Some (Inr ((s_pair 12)\<lparr>ts_rd_idx := 1\<rparr>)) \<and>
   ra_net_tx_ts_work P0 (s_pair 10) =
     Some (Inr ((s_pair 10)\<lparr>skb_rd_idx := 1, skbs := Map.empty, trace := [Kfree 100]\<rparr>))"
  by (simp add: ra_net_tx_ts_work_def work_loop.simps work_body_def ra_net_stamp_tx_skb_def
      dev_kfree_skb_any_def dev_kfree_skb_def concrete_defs)

subsection \<open>The scan for the start-of-timestamp marker\<close>

lemma scan_sot_Some_marker:
  assumes a: "scan_sot P f pos ctr sot = Some y"
  shows "\<exists>i. drop_bit 16 (f i) = RA_NET_TX_TIMESTAMP_START_OF_TS P"
proof -
  let ?Q = "\<lambda>(x :: (((params \<times> (nat \<Rightarrow> u32)) \<times> nat) \<times> u32) \<times> u32) (y :: u32 \<times> u32 \<times> nat).
              \<exists>i. drop_bit 16 (snd (fst (fst (fst x))) i)
                     = RA_NET_TX_TIMESTAMP_START_OF_TS (fst (fst (fst (fst x))))"
  have "?Q ((((P, f), pos), ctr), sot) y"
    by (rule scan_sot.raw_induct [where Pa = ?Q, OF _ a]) (auto split: if_splits)
  then show ?thesis by simp
qed

lemma scan_sot_no_marker:
  assumes "\<And>i. drop_bit 16 (f i) \<noteq> RA_NET_TX_TIMESTAMP_START_OF_TS P"
  shows "scan_sot P f pos ctr sot = None"
  using assms scan_sot_Some_marker [of P f pos ctr sot]
  by (cases "scan_sot P f pos ctr sot") auto

text \<open>
  C2. The code on a device with room in the Timestamp Ring whose FIFO returns the word 0 on
  every read, so that no word carries the marker \<^verbatim>\<open>0x1588\<close>: the interrupt handler never
  returns. The loop test \<^verbatim>\<open>ctr >= 0\<close> on the unsigned counter is always true, so the scan
  is left only through the \<^verbatim>\<open>break\<close> on a marker.
\<close>

theorem ra_net_tx_ts_irq_never_returns:
  "ra_net_tx_ts_irq P0 s0 = None"
proof -
  have "scan_sot P0 (\<lambda>_. 0) 0 4 0 = None"
    by (rule scan_sot_no_marker) (simp add: P0_def)
  then show ?thesis
    by (simp add: ra_net_tx_ts_irq_def s0_def P0_def)
qed

subsection \<open>Reading packet slots\<close>

text \<open>
  C4. The code on an empty Pending-Packet Ring with one timestamp waiting: the worker reads
  the packet slot after the read index although no entry is pending. On a fresh device the
  slot holds \<^verbatim>\<open>NULL\<close>, which \<open>ra_net_stamp_tx_skb\<close> dereferences; after the ring has been
  used it holds the address of a packet released earlier, which is dereferenced as well.
\<close>

theorem ra_net_tx_ts_work_reads_dead_slot:
  "skb_rd_idx s_ts_only = skb_wr_idx s_ts_only \<and>
   ra_net_tx_ts_work P0 s_ts_only = Some (Inl (Bad_skb_pointer 0)) \<and>
   skb_rd_idx s_ts_only_stale = skb_wr_idx s_ts_only_stale \<and>
   skbs s_ts_only_stale 100 = None \<and>
   ra_net_tx_ts_work P0 s_ts_only_stale = Some (Inl (Bad_skb_pointer 100))"
  by (simp add: ra_net_tx_ts_work_def work_loop.simps work_body_def ra_net_stamp_tx_skb_def
      concrete_defs)

subsection \<open>Flush\<close>

text \<open>
  C5. The code on a ring with two pending packets, at addresses 100 and 101 in slots 1 and
  2, for every value of the unassigned local \<^verbatim>\<open>rd_idx\<close>: the loop releases
  \<^verbatim>\<open>skb_ptr[rd_idx]\<close> on each pass, never the slot at the read index. With \<^verbatim>\<open>rd_idx\<close> 1
  or 2 one pending packet is released twice; with 0 or 3 the slot holds \<^verbatim>\<open>NULL\<close>, nothing
  is released and both packets stay allocated while the indices are reset; any other value
  is outside the array. In no case are both pending packets released once.
\<close>

theorem ra_net_flush_tx_ts_wrong_slot:
  "ra_net_flush_tx_ts P0 rd_idx s_two_pending =
     Some (if rd_idx = 1 then Inl (Double_free 100)
           else if rd_idx = 2 then Inl (Double_free 101)
           else if rd_idx = 0 \<or> rd_idx = 3
           then Inr (s_two_pending\<lparr>skb_wr_idx := 0, pp_irqs_pos := 1,
                                    trace := [Cancel_work_sync]\<rparr>)
           else Inl (Index_out_of_bounds rd_idx))"
proof -
  have d: "drain_fifo P0 (cancel_work_sync s_two_pending)
             = Some (s_two_pending\<lparr>pp_irqs_pos := 1, trace := [Cancel_work_sync]\<rparr>)"
    by (simp add: drain_fifo.simps cancel_work_sync_def ra_net_ior_pp_irqs_def concrete_defs)
  consider "rd_idx < 0 \<or> 4 \<le> rd_idx" | "rd_idx = 0" | "rd_idx = 1" | "rd_idx = 2" | "rd_idx = 3"
    by linarith
  then show ?thesis
  proof cases
    case 1
    then show ?thesis unfolding ra_net_flush_tx_ts_def d
      by (auto simp add: free_pending.simps concrete_defs)
  next
    case 2
    then show ?thesis unfolding ra_net_flush_tx_ts_def d
      by (simp add: free_pending.simps dev_kfree_skb_def concrete_defs)
  next
    case 3
    then show ?thesis unfolding ra_net_flush_tx_ts_def d
      by (simp add: free_pending.simps dev_kfree_skb_def concrete_defs)
  next
    case 4
    then show ?thesis unfolding ra_net_flush_tx_ts_def d
      by (simp add: free_pending.simps dev_kfree_skb_def concrete_defs)
  next
    case 5
    then show ?thesis unfolding ra_net_flush_tx_ts_def d
      by (simp add: free_pending.simps dev_kfree_skb_def concrete_defs)
  qed
qed

subsection \<open>Overflow of the Pending-Packet Ring\<close>

lemma full_ring_next:
  assumes rd: "rd < n" and wr: "wr < n" and occ: "occupancy n rd wr = n - 1"
  shows "(wr + 1) mod n = rd"
proof (cases "rd \<le> wr")
  case True
  then obtain d where d: "wr = rd + d" by (auto simp: le_iff_add)
  have "d < n" using wr d by simp
  then have "(wr + n - rd) mod n = d" unfolding d by simp
  then have "d = n - 1" using occ unfolding occupancy_def by simp
  then have "wr + 1 = n" and "rd = 0" using rd wr d by linarith+
  then show ?thesis by simp
next
  case False
  then have "wr + n - rd < n" using rd by linarith
  then have "(wr + n - rd) mod n = wr + n - rd" by simp
  then have "wr + n - rd = n - 1" using occ unfolding occupancy_def by simp
  then have "rd = wr + 1" using rd False by linarith
  then show ?thesis using rd by simp
qed

lemma occupancy_after_evict:
  assumes n: "2 \<le> n" and rd: "rd < n"
  shows "occupancy n ((rd + 1) mod n) rd = n - 1"
proof (cases "rd + 1 = n")
  case True
  then have "(rd + 1) mod n = 0" by simp
  moreover have "(rd + n) mod n = rd" using rd by simp
  ultimately show ?thesis using True unfolding occupancy_def by simp
next
  case False
  then have "(rd + 1) mod n = rd + 1" using rd by simp
  moreover have "rd + n - (rd + 1) = n - 1" by simp
  moreover have "(n - 1) mod n = n - 1" using n by simp
  ultimately show ?thesis unfolding occupancy_def by simp
qed

lemma add_mod_neq:
  assumes "0 < j" "j < n" "rd < n" shows "(rd + j) mod n \<noteq> (rd::nat)"
proof (cases "rd + j < n")
  case True
  then show ?thesis using assms by simp
next
  case False
  then obtain e where e: "rd + j = n + e" by (metis le_iff_add not_less)
  then have "e < n" using assms by linarith
  then have "(rd + j) mod n = e" unfolding e by simp
  moreover have "e \<noteq> rd" using e assms by linarith
  ultimately show ?thesis by simp
qed

lemma upt_split_first: "2 \<le> n \<Longrightarrow> [1 ..< n] = 1 # [2 ..< n]"
  by (metis Suc_1 Suc_le_lessD One_nat_def upt_conv_Cons)

lemma upt_split_last: "2 \<le> n \<Longrightarrow> [1 ..< n] = [1 ..< n - 1] @ [n - 1]"
proof -
  assume "2 \<le> n"
  then obtain m where m: "n = Suc m" and "1 \<le> m" by (cases n) auto
  then show ?thesis by simp
qed

lemma upt_shift: "[2 ..< n] = map Suc [1 ..< n - 1]"
proof (cases n)
  case 0
  then show ?thesis by simp
next
  case (Suc m)
  then show ?thesis by (simp add: map_Suc_upt numeral_2_eq_2)
qed

lemma pending_rotate:
  assumes n: "2 \<le> n" and rd: "rd < n" and len: "length ptrs = n"
  shows "map (\<lambda>k. ptrs[rd := skb] ! (((rd + 1) mod n + k) mod n)) [1 ..< n]
         = map (\<lambda>k. ptrs ! ((rd + k) mod n)) [2 ..< n] @ [skb]"
proof -
  have shift: "((rd + 1) mod n + k) mod n = (rd + Suc k) mod n" for k
    by (simp add: mod_add_left_eq)
  have last: "ptrs[rd := skb] ! ((rd + Suc (n - 1)) mod n) = skb"
  proof -
    have "Suc (n - 1) = n" using n by simp
    then have "(rd + Suc (n - 1)) mod n = rd" using rd by simp
    then show ?thesis using rd len by simp
  qed
  have mid: "ptrs[rd := skb] ! ((rd + Suc k) mod n) = ptrs ! ((rd + Suc k) mod n)"
    if "k \<in> set [1 ..< n - 1]" for k
  proof -
    have "0 < Suc k" and "Suc k < n" using that by auto
    then have "(rd + Suc k) mod n \<noteq> rd" using rd by (intro add_mod_neq)
    then show ?thesis by simp
  qed
  have "map (\<lambda>k. ptrs[rd := skb] ! (((rd + 1) mod n + k) mod n)) [1 ..< n]
        = map (\<lambda>k. ptrs[rd := skb] ! ((rd + Suc k) mod n)) [1 ..< n - 1]
          @ [ptrs[rd := skb] ! ((rd + Suc (n - 1)) mod n)]"
    unfolding shift by (subst upt_split_last [OF n]) simp
  also have "map (\<lambda>k. ptrs[rd := skb] ! ((rd + Suc k) mod n)) [1 ..< n - 1]
        = map (\<lambda>k. ptrs ! ((rd + Suc k) mod n)) [1 ..< n - 1]"
    using mid by (intro map_cong) auto
  also have "\<dots> = map (\<lambda>k. ptrs ! ((rd + k) mod n)) [2 ..< n]"
    unfolding upt_shift [of n] by (simp add: comp_def)
  finally show ?thesis using last by simp
qed

text \<open>
  C7. On a Pending-Packet Ring holding the largest number of entries it can represent (one
  less than its size), all of them live packets, submitting a further live packet that asks
  for a hardware timestamp releases the oldest unread entry and no other, appends the new
  packet as the newest entry and leaves the occupancy as it was; the released entry is not
  the packet submitted.
\<close>

theorem ra_net_tx_ts_send_overflow:
  assumes ok: "rings_ok P s"
    and full: "occupancy (RA_NET_TX_SKB_LIST_SIZE P) (skb_rd_idx s) (skb_wr_idx s)
                 = RA_NET_TX_SKB_LIST_SIZE P - 1"
    and en: "tx_ts_enable s"
    and skb: "skbs s skb = Some b"
    and flag: "tx_flags b AND SKBTX_HW_TSTAMP \<noteq> 0"
    and live: "\<forall>p \<in> set (pending P s). p \<noteq> 0 \<and> skbs s p \<noteq> None"
    and new: "skb \<notin> set (pending P s)"
  shows "\<exists>old rest s'.
     pending P s = old # rest \<and>
     s' = s\<lparr>skb_wr_idx := skb_rd_idx s,
            skb_rd_idx := (skb_rd_idx s + 1) mod RA_NET_TX_SKB_LIST_SIZE P,
            skb_ptr := (skb_ptr s)[skb_rd_idx s := skb],
            skbs := (skbs s)(old := None,
                             skb \<mapsto> b\<lparr>tx_flags := tx_flags b OR SKBTX_IN_PROGRESS\<rparr>),
            trace := trace s @ [Kfree old, Net_err_ring_full]\<rparr> \<and>
     ra_net_tx_ts_send P s skb = Inr (False, s') \<and>
     pending P s' = rest @ [skb] \<and>
     old \<noteq> skb \<and>
     occupancy (RA_NET_TX_SKB_LIST_SIZE P) (skb_rd_idx s') (skb_wr_idx s')
       = occupancy (RA_NET_TX_SKB_LIST_SIZE P) (skb_rd_idx s) (skb_wr_idx s)"
proof -
  define n where "n = RA_NET_TX_SKB_LIST_SIZE P"
  define rd where "rd = skb_rd_idx s"
  define old where "old = skb_ptr s ! ((rd + 1) mod n)"
  define rest where "rest = map (\<lambda>k. skb_ptr s ! ((rd + k) mod n)) [2 ..< n]"
  define s' where "s' = s\<lparr>skb_wr_idx := rd,
            skb_rd_idx := (rd + 1) mod n,
            skb_ptr := (skb_ptr s)[rd := skb],
            skbs := (skbs s)(old := None,
                             skb \<mapsto> b\<lparr>tx_flags := tx_flags b OR SKBTX_IN_PROGRESS\<rparr>),
            trace := trace s @ [Kfree old, Net_err_ring_full]\<rparr>"
  have n: "2 \<le> n" and rdn: "rd < n" and wrn: "skb_wr_idx s < n" and len: "length (skb_ptr s) = n"
    using ok unfolding rings_ok_def n_def rd_def by simp_all
  have occ: "occupancy n rd (skb_wr_idx s) = n - 1"
    using full unfolding n_def rd_def .
  have next_wr: "(skb_wr_idx s + 1) mod n = rd"
    by (rule full_ring_next [OF rdn wrn occ])
  have pend: "pending P s = old # rest"
    unfolding pending_def old_def rest_def
    using occ n upt_split_first [OF n] by (simp add: n_def rd_def)
  have "old \<in> set (pending P s)" using pend by simp
  then have old0: "old \<noteq> 0" and old_live: "skbs s old \<noteq> None" and old_new: "old \<noteq> skb"
    using live new by auto
  obtain ob where ob: "skbs s old = Some ob" using old_live by auto
  have occ': "occupancy n ((rd + 1) mod n) rd = n - 1"
    by (rule occupancy_after_evict [OF n rdn])
  have old_eq: "skb_ptr s ! (Suc rd mod n) = old" by (simp add: old_def)
  have send: "ra_net_tx_ts_send P s skb = Inr (False, s')"
    unfolding ra_net_tx_ts_send_def s'_def
    using en skb flag next_wr old0 ob old_new
    by (simp add: Let_def dev_kfree_skb_any_def dev_kfree_skb_def
        n_def [symmetric] rd_def [symmetric] old_eq)
  have pend': "pending P s' = rest @ [skb]"
    unfolding pending_def rest_def
    using occ' n pending_rotate [OF n rdn len, of skb]
    by (simp add: s'_def n_def [symmetric])
  have occ_eq: "occupancy n (skb_rd_idx s') (skb_wr_idx s') = occupancy n rd (skb_wr_idx s)"
    using occ occ' by (simp add: s'_def)
  show ?thesis
    using pend send pend' old_new occ_eq
    unfolding s'_def n_def rd_def by blast
qed

lemma pending_s_full: "pending P0 s_full = [100, 101, 102]"
  by (simp add: pending_def occupancy_def s_full_def s0_def P0_def upt_rec)

theorem ra_net_tx_ts_send_overflow_witness:
  "rings_ok P0 s_full \<and>
   occupancy 4 (skb_rd_idx s_full) (skb_wr_idx s_full) = 3 \<and>
   pending P0 s_full = [100, 101, 102] \<and>
   (\<exists>s'. ra_net_tx_ts_send P0 s_full 103 = Inr (False, s') \<and>
         pending P0 s' = [101, 102, 103] \<and>
         trace s' = [Kfree 100, Net_err_ring_full] \<and>
         occupancy 4 (skb_rd_idx s') (skb_wr_idx s') = 3)"
proof -
  have ok: "rings_ok P0 s_full"
    by (simp add: rings_ok_def s_full_def s0_def P0_def)
  have occ: "occupancy 4 (skb_rd_idx s_full) (skb_wr_idx s_full) = 3"
    by (simp add: occupancy_def s_full_def s0_def)
  have full: "occupancy (RA_NET_TX_SKB_LIST_SIZE P0) (skb_rd_idx s_full) (skb_wr_idx s_full)
                 = RA_NET_TX_SKB_LIST_SIZE P0 - 1"
    using occ by (simp add: P0_def)
  have en: "tx_ts_enable s_full" by (simp add: s_full_def)
  have skb: "skbs s_full 103 = Some (ptp_skb 8)" by (simp add: s_full_def)
  have flag: "tx_flags (ptp_skb 8) AND SKBTX_HW_TSTAMP \<noteq> 0"
    by (simp add: ptp_skb_def SKBTX_HW_TSTAMP_def)
  have live: "\<forall>p \<in> set (pending P0 s_full). p \<noteq> 0 \<and> skbs s_full p \<noteq> None"
    unfolding pending_s_full by (simp add: s_full_def)
  have new: "103 \<notin> set (pending P0 s_full)"
    unfolding pending_s_full by simp
  obtain old rest s' where
    p: "pending P0 s_full = old # rest"
    and s': "s' = s_full\<lparr>skb_wr_idx := skb_rd_idx s_full,
            skb_rd_idx := (skb_rd_idx s_full + 1) mod RA_NET_TX_SKB_LIST_SIZE P0,
            skb_ptr := (skb_ptr s_full)[skb_rd_idx s_full := 103],
            skbs := (skbs s_full)(old := None,
                             103 \<mapsto> (ptp_skb 8)\<lparr>tx_flags := tx_flags (ptp_skb 8) OR SKBTX_IN_PROGRESS\<rparr>),
            trace := trace s_full @ [Kfree old, Net_err_ring_full]\<rparr>"
    and send: "ra_net_tx_ts_send P0 s_full 103 = Inr (False, s')"
    and p': "pending P0 s' = rest @ [103]"
    and o: "occupancy (RA_NET_TX_SKB_LIST_SIZE P0) (skb_rd_idx s') (skb_wr_idx s')
       = occupancy (RA_NET_TX_SKB_LIST_SIZE P0) (skb_rd_idx s_full) (skb_wr_idx s_full)"
    using ra_net_tx_ts_send_overflow [OF ok full en skb flag live new] by blast
  have old: "old = 100" and rest: "rest = [101, 102]"
    using p unfolding pending_s_full by simp_all
  have "trace s' = [Kfree 100, Net_err_ring_full]"
    unfolding s' old by (simp add: s_full_def s0_def)
  moreover have "pending P0 s' = [101, 102, 103]"
    using p' rest by simp
  moreover have "occupancy 4 (skb_rd_idx s') (skb_wr_idx s') = 3"
    using o occ by (simp add: P0_def)
  ultimately show ?thesis using ok occ pending_s_full send by blast
qed

subsection \<open>Applying the configuration\<close>

lemma and_not_or_and: "((x AND NOT m) OR m) AND m = (m :: u32)"
  by (simp add: bit_eq_iff bit_simps)
lemma and_not_and: "(x AND NOT m) AND m = (0 :: u32)"
  by (simp add: bit_eq_iff bit_simps)

lemma config_unfold:
  "ra_net_tx_ts_config P s =
     (if hw_matches P s then s
      else s\<lparr>pp_config := (pp_config s AND NOT (RA_NET_PP_CONFIG_ENABLE_PTP_TIMESTAMPS P))
                            OR (if tx_ts_enable s \<or> rx_ts_enable s
                                then RA_NET_PP_CONFIG_ENABLE_PTP_TIMESTAMPS P else 0),
             pp_irq_en := (if tx_ts_enable s \<or> rx_ts_enable s
                           then pp_irq_en s OR RA_NET_PP_IRQ_PTP_TX_TS_IRQ_AVAILABLE P
                           else pp_irq_en s AND NOT (RA_NET_PP_IRQ_PTP_TX_TS_IRQ_AVAILABLE P)),
             trace := trace s @
               [Stop_queue,
                Write_pp_config (RA_NET_PP_CONFIG_ENABLE_PTP_TIMESTAMPS P)
                  (if tx_ts_enable s \<or> rx_ts_enable s
                   then RA_NET_PP_CONFIG_ENABLE_PTP_TIMESTAMPS P else 0),
                (if tx_ts_enable s \<or> rx_ts_enable s
                 then Irq_enable (RA_NET_PP_IRQ_PTP_TX_TS_IRQ_AVAILABLE P)
                 else Irq_disable (RA_NET_PP_IRQ_PTP_TX_TS_IRQ_AVAILABLE P)),
                Start_queue]\<rparr>)"
  by (simp add: ra_net_tx_ts_config_def hw_matches_def Let_def netif_stop_queue_def
      netif_start_queue_def ra_net_iow_mask_pp_config_def ra_net_pp_irq_enable_def
      ra_net_pp_irq_disable_def)

lemma config_matches:
  "RA_NET_PP_CONFIG_ENABLE_PTP_TIMESTAMPS P \<noteq> 0 \<Longrightarrow> hw_matches P (ra_net_tx_ts_config P s)"
  by (simp add: config_unfold) (simp add: hw_matches_def and_not_or_and and_not_and)

lemma config_flags:
  "tx_ts_enable (ra_net_tx_ts_config P s) = tx_ts_enable s"
  "rx_ts_enable (ra_net_tx_ts_config P s) = rx_ts_enable s"
  by (simp_all add: config_unfold)

lemma config_noop: "hw_matches P s \<Longrightarrow> ra_net_tx_ts_config P s = s"
  by (simp add: config_unfold)



text \<open>
  C9. With a non-zero feature bit, \<open>ra_net_tx_ts_config\<close> compares the feature bit read
  from the hardware with the logical OR of \<open>tx_ts_enable\<close> and \<open>rx_ts_enable\<close>. When
  they agree the state is returned as it is; only otherwise the queue is stopped, the feature
  bit written, the interrupt enabled or disabled and the queue started, in this order.
  Applying the configuration a second time changes nothing, and neither does setting
  \<open>tx_ts_enable\<close> and applying the configuration after it has just been done.
\<close>

theorem ra_net_tx_ts_config_idempotent:
  assumes "RA_NET_PP_CONFIG_ENABLE_PTP_TIMESTAMPS P \<noteq> 0"
  shows "ra_net_tx_ts_config P s =
     (if (pp_config s AND RA_NET_PP_CONFIG_ENABLE_PTP_TIMESTAMPS P \<noteq> 0)
           = (tx_ts_enable s \<or> rx_ts_enable s)
      then s
      else s\<lparr>pp_config := (pp_config s AND NOT (RA_NET_PP_CONFIG_ENABLE_PTP_TIMESTAMPS P))
                            OR (if tx_ts_enable s \<or> rx_ts_enable s
                                then RA_NET_PP_CONFIG_ENABLE_PTP_TIMESTAMPS P else 0),
             pp_irq_en := (if tx_ts_enable s \<or> rx_ts_enable s
                           then pp_irq_en s OR RA_NET_PP_IRQ_PTP_TX_TS_IRQ_AVAILABLE P
                           else pp_irq_en s AND NOT (RA_NET_PP_IRQ_PTP_TX_TS_IRQ_AVAILABLE P)),
             trace := trace s @
               [Stop_queue,
                Write_pp_config (RA_NET_PP_CONFIG_ENABLE_PTP_TIMESTAMPS P)
                  (if tx_ts_enable s \<or> rx_ts_enable s
                   then RA_NET_PP_CONFIG_ENABLE_PTP_TIMESTAMPS P else 0),
                (if tx_ts_enable s \<or> rx_ts_enable s
                 then Irq_enable (RA_NET_PP_IRQ_PTP_TX_TS_IRQ_AVAILABLE P)
                 else Irq_disable (RA_NET_PP_IRQ_PTP_TX_TS_IRQ_AVAILABLE P)),
                Start_queue]\<rparr>)
   \<and> ra_net_tx_ts_config P (ra_net_tx_ts_config P s) = ra_net_tx_ts_config P s
   \<and> ra_net_tx_ts_config P
        ((ra_net_tx_ts_config P (s\<lparr>tx_ts_enable := True\<rparr>))\<lparr>tx_ts_enable := True\<rparr>)
      = ra_net_tx_ts_config P (s\<lparr>tx_ts_enable := True\<rparr>)"
proof (intro conjI)
  show "ra_net_tx_ts_config P (ra_net_tx_ts_config P s) = ra_net_tx_ts_config P s"
    by (rule config_noop [OF config_matches [OF assms]])
  have e: "(ra_net_tx_ts_config P (s\<lparr>tx_ts_enable := True\<rparr>))\<lparr>tx_ts_enable := True\<rparr>
          = ra_net_tx_ts_config P (s\<lparr>tx_ts_enable := True\<rparr>)"
    by (simp add: config_unfold)
  show "ra_net_tx_ts_config P
        ((ra_net_tx_ts_config P (s\<lparr>tx_ts_enable := True\<rparr>))\<lparr>tx_ts_enable := True\<rparr>)
      = ra_net_tx_ts_config P (s\<lparr>tx_ts_enable := True\<rparr>)"
    unfolding e by (rule config_noop [OF config_matches [OF assms]])
qed (use config_unfold [of P s] in \<open>simp add: hw_matches_def\<close>)


theorem ra_net_tx_ts_config_idempotent_witness:
  "RA_NET_PP_CONFIG_ENABLE_PTP_TIMESTAMPS P0 \<noteq> 0 \<and>
   ra_net_tx_ts_config P0 (s0\<lparr>tx_ts_enable := True\<rparr>) = s_tx_on \<and>
   ra_net_tx_ts_config P0 s_tx_on = s_tx_on"
proof -
  have h: "RA_NET_PP_CONFIG_ENABLE_PTP_TIMESTAMPS P0 \<noteq> 0" by (simp add: P0_def)
  have v: "ra_net_tx_ts_config P0 (s0\<lparr>tx_ts_enable := True\<rparr>) = s_tx_on"
    by (simp add: config_unfold hw_matches_def s_tx_on_def s_ts_full_def s_ts_full_off_def s_ts_full_on_def skb0_def s0_def P0_def)
  have "ra_net_tx_ts_config P0 (ra_net_tx_ts_config P0 (s0\<lparr>tx_ts_enable := True\<rparr>))
          = ra_net_tx_ts_config P0 (s0\<lparr>tx_ts_enable := True\<rparr>)"
    using ra_net_tx_ts_config_idempotent [OF h, of "s0\<lparr>tx_ts_enable := True\<rparr>"] by blast
  then have "ra_net_tx_ts_config P0 s_tx_on = s_tx_on" unfolding v .
  with h v show ?thesis by blast
qed

subsection \<open>The write index of the Timestamp Ring when the scan fails\<close>

text \<open>
  C3. The code on a FIFO that carries no marker in its first four words (the size of a
  record): the handler reports that no start of timestamp was found and schedules no work,
  but returns with the write index advanced from 0 to 1, the value stored before the scan;
  the slot it has published was never written. With a packet pending, the next interrupt
  stores the packet's record one slot further on; the worker then completes the packet with
  the contents of the unwritten slot (a timestamp of 0 ns) and leaves the record that was
  read for it (2 s, 5 ns) in the ring.
\<close>

theorem ra_net_tx_ts_irq_abort_advances_wr_idx:
  "ts_wr_idx s_late_marker = 0 \<and>
   ra_net_tx_ts_irq P0 s_late_marker
     = Some (s_late_marker\<lparr>ts_wr_idx := 1, fifo_pos := 5, trace := [Dev_err_no_start_of_ts]\<rparr>) \<and>
   ts_wr_idx s_lost = 0 \<and>
   ra_net_tx_ts_irq P0 s_lost = Some s_lost_aborted \<and>
   ts_wr_idx s_lost_aborted = 1 \<and>
   fpga_ts s_lost_aborted ! 1 = ts0 \<and>
   ra_net_tx_ts_irq P0 s_lost_aborted = Some s_lost_next \<and>
   ra_net_tx_ts_work P0 s_lost_next = Some (Inr s_lost_done)"
  by (simp add: ra_net_tx_ts_irq_def scan_sot.simps ra_net_ior_rep_fifo_def schedule_work_def
      ra_net_tx_ts_work_def work_loop.simps work_body_def ra_net_stamp_tx_skb_def
      skb_tstamp_tx_def ts_to_ns_def NSEC_PER_SEC_def dev_kfree_skb_any_def dev_kfree_skb_def
      s_late_marker_def s_lost_def s_lost_aborted_def s_lost_next_def s_lost_done_def
      concrete_defs upt_rec Let_def)


subsection \<open>Invalid configuration requests\<close>

text \<open>
  C6, as claimed, fails: a request with zero flags, \<^verbatim>\<open>HWTSTAMP_TX_ON\<close> and the rx filter
  \<^verbatim>\<open>HWTSTAMP_FILTER_ALL\<close> (1, not accepted by this driver) on the fresh device returns
  \<^verbatim>\<open>-EINVAL\<close> after \<open>tx_ts_enable\<close>, the feature bit and the interrupt enable have
  changed.
\<close>

theorem ra_net_hwtstamp_ioctl_bad_rx_filter_mutates:
  "ra_net_hwtstamp_ioctl P0 s0 (Some \<lparr>flags = 0, tx_type = 1, rx_filter = 1\<rparr>) True
     = (- 22, None, s_tx_on) \<and>
   tx_ts_enable s_tx_on \<noteq> tx_ts_enable s0 \<and>
   pp_config s_tx_on \<noteq> pp_config s0 \<and>
   pp_irq_en s_tx_on \<noteq> pp_irq_en s0"
  by (simp add: ra_net_hwtstamp_ioctl_def config_unfold hw_matches_def EINVAL_def
      HWTSTAMP_TX_OFF_def HWTSTAMP_TX_ON_def HWTSTAMP_FILTER_NONE_def
      HWTSTAMP_FILTER_PTP_V2_L4_EVENT_def HWTSTAMP_FILTER_PTP_V2_L4_SYNC_def
      HWTSTAMP_FILTER_PTP_V2_L4_DELAY_REQ_def s_tx_on_def s0_def P0_def)

text \<open>
  C6, amended. A request that can be read and has non-zero flags, an unsupported
  \<open>tx_type\<close> or an \<open>rx_filter\<close> outside the accepted set returns \<^verbatim>\<open>-EINVAL\<close> and
  writes nothing back. With non-zero flags or an unsupported \<open>tx_type\<close> the state is
  unchanged. With zero flags and a supported \<open>tx_type\<close> the rejection of the \<open>rx_filter\<close>
  comes after \<open>tx_ts_enable\<close> has been set from \<open>tx_type\<close> and the configuration has been
  applied for it; \<open>rx_ts_enable\<close> is unchanged in every case.
\<close>

theorem ra_net_hwtstamp_ioctl_invalid:
  assumes "flags c \<noteq> 0
           \<or> tx_type c \<notin> {HWTSTAMP_TX_OFF, HWTSTAMP_TX_ON}
           \<or> rx_filter c \<notin> {HWTSTAMP_FILTER_NONE, HWTSTAMP_FILTER_PTP_V2_L4_EVENT,
                             HWTSTAMP_FILTER_PTP_V2_L4_SYNC, HWTSTAMP_FILTER_PTP_V2_L4_DELAY_REQ}"
  shows "\<exists>s'. ra_net_hwtstamp_ioctl P s (Some c) writable = (- EINVAL, None, s') \<and>
     s' = (if flags c \<noteq> 0 \<or> tx_type c \<notin> {HWTSTAMP_TX_OFF, HWTSTAMP_TX_ON} then s
           else ra_net_tx_ts_config P (s\<lparr>tx_ts_enable := (tx_type c = HWTSTAMP_TX_ON)\<rparr>)) \<and>
     rx_ts_enable s' = rx_ts_enable s"
  using assms
  by (auto simp add: ra_net_hwtstamp_ioctl_def config_flags HWTSTAMP_TX_OFF_def HWTSTAMP_TX_ON_def)

theorem ra_net_hwtstamp_ioctl_invalid_witness:
  "ra_net_hwtstamp_ioctl P0 s_rx_on (Some \<lparr>flags = 0, tx_type = 1, rx_filter = 9\<rparr>) True
     = (- 22, None, s_rx_on\<lparr>tx_ts_enable := True\<rparr>) \<and>
   ra_net_hwtstamp_ioctl P0 s_rx_on (Some \<lparr>flags = 1, tx_type = 1, rx_filter = 0\<rparr>) True
     = (- 22, None, s_rx_on) \<and>
   ra_net_hwtstamp_ioctl P0 s_rx_on (Some \<lparr>flags = 0, tx_type = 2, rx_filter = 0\<rparr>) True
     = (- 22, None, s_rx_on)"
proof -
  have a: "ra_net_tx_ts_config P0 (s_rx_on\<lparr>tx_ts_enable := True\<rparr>)
             = s_rx_on\<lparr>tx_ts_enable := True\<rparr>"
    by (simp add: config_unfold hw_matches_def s_rx_on_def s0_def P0_def)
  have k: "HWTSTAMP_TX_ON = 1" "HWTSTAMP_TX_OFF = 0" "EINVAL = 22" "HWTSTAMP_FILTER_NONE = 0"
    "HWTSTAMP_FILTER_PTP_V2_L4_EVENT = 6" "HWTSTAMP_FILTER_PTP_V2_L4_SYNC = 7"
    "HWTSTAMP_FILTER_PTP_V2_L4_DELAY_REQ = 8"
    by (simp_all add: HWTSTAMP_TX_OFF_def HWTSTAMP_TX_ON_def EINVAL_def HWTSTAMP_FILTER_NONE_def
      HWTSTAMP_FILTER_PTP_V2_L4_EVENT_def HWTSTAMP_FILTER_PTP_V2_L4_SYNC_def
      HWTSTAMP_FILTER_PTP_V2_L4_DELAY_REQ_def)
  show ?thesis
    using ra_net_hwtstamp_ioctl_invalid [of "\<lparr>flags = 0, tx_type = 1, rx_filter = 9\<rparr>" P0 s_rx_on True]
      ra_net_hwtstamp_ioctl_invalid [of "\<lparr>flags = 1, tx_type = 1, rx_filter = 0\<rparr>" P0 s_rx_on True]
      ra_net_hwtstamp_ioctl_invalid [of "\<lparr>flags = 0, tx_type = 2, rx_filter = 0\<rparr>" P0 s_rx_on True]
    by (simp add: k a)
qed

subsection \<open>Disabling and re-enabling the timestamp interrupt\<close>

lemma steps_left_advance:
  assumes rd: "rd < n" and wr: "wr < n" and ne: "(rd + 1) mod n \<noteq> wr"
  shows "steps_left n ((rd + 1) mod n) wr < steps_left n rd wr"
proof -
  consider (eq) "rd = wr" | (lt) "rd < wr" | (wrap) "wr < rd" "rd + 1 = n" | (gt) "wr < rd" "rd + 1 < n"
    using rd by linarith
  then show ?thesis
  proof cases
    case eq
    have "(wr + n - (rd + 1) mod n) mod n < n" using rd by simp
    then show ?thesis using eq ne by (simp add: steps_left_def)
  next
    case lt
    then have r1: "(rd + 1) mod n = rd + 1" using wr by simp
    then have "rd + 1 < wr" using lt ne by linarith
    then have a: "(wr + n - (rd + 1)) mod n = wr - (rd + 1)"
      using wr by (metis Nat.add_diff_assoc2 less_imp_le_nat less_imp_diff_less mod_add_self2 mod_less)
    have b: "(wr + n - rd) mod n = wr - rd"
      using wr lt by (metis Nat.add_diff_assoc2 less_imp_le_nat less_imp_diff_less mod_add_self2 mod_less)
    show ?thesis using lt ne \<open>rd + 1 < wr\<close> unfolding steps_left_def r1 a b by simp
  next
    case wrap
    then have r1: "(rd + 1) mod n = 0" by simp
    then have w0: "wr \<noteq> 0" using ne by simp
    have a: "(wr + n - 0) mod n = wr" using wr by simp
    have "wr + n - rd = wr + 1" using wrap by linarith
    moreover have "wr + 1 < n" using wrap by linarith
    ultimately have b: "(wr + n - rd) mod n = wr + 1" by simp
    show ?thesis using wrap w0 unfolding steps_left_def r1 b by (simp add: a)
  next
    case gt
    then have r1: "(rd + 1) mod n = rd + 1" by simp
    have "wr + n - (rd + 1) < n" using gt by linarith
    then have a: "(wr + n - (rd + 1)) mod n = wr + n - (rd + 1)" by simp
    have "wr + n - rd < n" using gt by linarith
    then have b: "(wr + n - rd) mod n = wr + n - rd" by simp
    show ?thesis using gt unfolding steps_left_def r1 a b by simp
  qed
qed

lemma roll_back:
  assumes "rd < n" shows "((rd + 1) mod n + (n - 1)) mod n = (rd::nat)"
proof -
  have "((rd + 1) mod n + (n - 1)) mod n = (rd + 1 + (n - 1)) mod n"
    by (simp add: mod_add_left_eq)
  also have "rd + 1 + (n - 1) = rd + n" using assms by simp
  finally show ?thesis using assms by simp
qed

lemma u16_next:
  assumes "wr < n" "n \<le> 65536"
  shows "((wr mod 65536 + 1) mod 65536) mod n = (wr + 1) mod (n::nat)"
proof (cases "wr + 1 = 65536")
  case True
  then have "n = 65536" using assms by linarith
  then show ?thesis using True by simp
next
  case False
  then have "wr + 1 < 65536" using assms by linarith
  then show ?thesis by simp
qed

lemma loop_frame_refl: "loop_frame s s"
  by (simp add: loop_frame_def)

lemma loop_frameI:
  assumes "reenable_irq s' = reenable_irq s" "pp_irq_en s' = pp_irq_en s"
    "trace s' = trace s @ evs" "list_all is_packet_event evs"
  shows "loop_frame s s'"
  using assms by (simp add: loop_frame_def)

lemma loop_frameD:
  assumes "loop_frame s s'"
  shows "reenable_irq s' = reenable_irq s \<and> pp_irq_en s' = pp_irq_en s \<and>
         (\<exists>evs. trace s' = trace s @ evs \<and> list_all is_packet_event evs)"
proof -
  have "take (length (trace s)) (trace s') @ drop (length (trace s)) (trace s') = trace s'"
    by (rule append_take_drop_id)
  moreover have "take (length (trace s)) (trace s') = trace s"
    using assms unfolding loop_frame_def by blast
  ultimately have "trace s' = trace s @ drop (length (trace s)) (trace s')"
    by metis
  then show ?thesis using assms unfolding loop_frame_def by blast
qed

lemma loop_frame_trans:
  assumes "loop_frame s s1" "loop_frame s1 s2"
  shows "loop_frame s s2"
proof -
  obtain e1 where e1: "trace s1 = trace s @ e1" "list_all is_packet_event e1"
    using loop_frameD [OF assms(1)] by blast
  obtain e2 where e2: "trace s2 = trace s1 @ e2" "list_all is_packet_event e2"
    using loop_frameD [OF assms(2)] by blast
  show ?thesis
  proof (rule loop_frameI [where evs = "e1 @ e2"])
    show "reenable_irq s2 = reenable_irq s" "pp_irq_en s2 = pp_irq_en s"
      using loop_frameD [OF assms(1)] loop_frameD [OF assms(2)] by simp_all
    show "trace s2 = trace s @ e1 @ e2" using e1 e2 by simp
    show "list_all is_packet_event (e1 @ e2)" using e1 e2 by simp
  qed
qed

lemma stamp_frame:
  assumes "ra_net_stamp_tx_skb P s skb ts = Inr (s1, tc, sc)"
  shows "loop_frame s s1 \<and> (tc \<or> sc)"
  using assms
  by (auto simp add: ra_net_stamp_tx_skb_def skb_tstamp_tx_def Let_def loop_frame_def
      is_packet_event_def split: option.splits if_splits)

lemma kfree_frame:
  assumes "dev_kfree_skb_any s p = Inr s1"
  shows "loop_frame s s1"
  using assms
  by (auto simp add: dev_kfree_skb_any_def dev_kfree_skb_def loop_frame_def is_packet_event_def
      split: option.splits if_splits)

lemma work_body_cases:
  assumes b: "work_body P (s, skb_rd, ts_rd) = Inr (s', skb_rd', ts_rd')"
    and r1: "skb_rd < RA_NET_TX_SKB_LIST_SIZE P" and r2: "ts_rd < RA_NET_TX_TS_LIST_SIZE P"
  shows "loop_frame s s' \<and>
         ((skb_rd' = (skb_rd + 1) mod RA_NET_TX_SKB_LIST_SIZE P \<and> ts_rd' = ts_rd)
          \<or> (skb_rd' = (skb_rd + 1) mod RA_NET_TX_SKB_LIST_SIZE P
              \<and> ts_rd' = (ts_rd + 1) mod RA_NET_TX_TS_LIST_SIZE P)
          \<or> (skb_rd' = skb_rd \<and> ts_rd' = (ts_rd + 1) mod RA_NET_TX_TS_LIST_SIZE P))"
proof -
  let ?skb = "skb_ptr s ! ((skb_rd + 1) mod RA_NET_TX_SKB_LIST_SIZE P)"
  let ?ts = "fpga_ts s ! ((ts_rd + 1) mod RA_NET_TX_TS_LIST_SIZE P)"
  obtain s1 tc sc where st: "ra_net_stamp_tx_skb P s ?skb ?ts = Inr (s1, tc, sc)"
    using b by (auto simp add: work_body_def Let_def split: sum.splits)
  note f1 = stamp_frame [OF st]
  show ?thesis
  proof (cases sc)
    case True
    then obtain s2 where k: "dev_kfree_skb_any s1 ?skb = Inr s2"
      using b st by (auto simp add: work_body_def Let_def split: sum.splits)
    have f2: "loop_frame s s2"
      using f1 kfree_frame [OF k] by (blast intro: loop_frame_trans)
    have "s' = s2" and "skb_rd' = (skb_rd + 1) mod RA_NET_TX_SKB_LIST_SIZE P"
      and "ts_rd' = (if \<not> tc then ((ts_rd + 1) mod RA_NET_TX_TS_LIST_SIZE P
                 + (RA_NET_TX_TS_LIST_SIZE P - 1)) mod RA_NET_TX_TS_LIST_SIZE P
                 else (ts_rd + 1) mod RA_NET_TX_TS_LIST_SIZE P)"
      using b st k True by (auto simp add: work_body_def Let_def)
    then show ?thesis using f2 roll_back [OF r2] by auto
  next
    case False
    then have tc using f1 by simp
    have "s' = s1" and "skb_rd' = ((skb_rd + 1) mod RA_NET_TX_SKB_LIST_SIZE P
                 + (RA_NET_TX_SKB_LIST_SIZE P - 1)) mod RA_NET_TX_SKB_LIST_SIZE P"
      and "ts_rd' = (ts_rd + 1) mod RA_NET_TX_TS_LIST_SIZE P"
      using b st False \<open>tc\<close> by (auto simp add: work_body_def Let_def)
    then show ?thesis using f1 roll_back [OF r1] by auto
  qed
qed

lemma work_loop_result:
  assumes w1: "skb_wr < RA_NET_TX_SKB_LIST_SIZE P" and w2: "ts_wr < RA_NET_TX_TS_LIST_SIZE P"
  shows "skb_rd < RA_NET_TX_SKB_LIST_SIZE P \<Longrightarrow> ts_rd < RA_NET_TX_TS_LIST_SIZE P \<Longrightarrow>
         \<exists>r. work_loop P skb_wr ts_wr (s, skb_rd, ts_rd) = Some r \<and>
             (case r of Inl e \<Rightarrow> True | Inr (s', a', b') \<Rightarrow> loop_frame s s')"
proof (induction "steps_left (RA_NET_TX_SKB_LIST_SIZE P) skb_rd skb_wr
                  + steps_left (RA_NET_TX_TS_LIST_SIZE P) ts_rd ts_wr"
       arbitrary: s skb_rd ts_rd rule: less_induct)
  case less
  show ?case
  proof (cases "work_body P (s, skb_rd, ts_rd)")
    case (Inl e)
    then show ?thesis by (subst work_loop.simps) simp
  next
    case (Inr l')
    obtain s' a' b' where l': "l' = (s', a', b')" by (cases l') auto
    note c = work_body_cases [OF Inr [unfolded l'] less.prems]
    have fr: "loop_frame s s'" using c by simp
    show ?thesis
    proof (cases "b' \<noteq> ts_wr \<and> a' \<noteq> skb_wr")
      case False
      then show ?thesis using Inr l' fr by (subst work_loop.simps) auto
    next
      case True
      have a'n: "a' < RA_NET_TX_SKB_LIST_SIZE P" and b'n: "b' < RA_NET_TX_TS_LIST_SIZE P"
        using c less.prems by auto
      have dec: "steps_left (RA_NET_TX_SKB_LIST_SIZE P) a' skb_wr
                  + steps_left (RA_NET_TX_TS_LIST_SIZE P) b' ts_wr
                 < steps_left (RA_NET_TX_SKB_LIST_SIZE P) skb_rd skb_wr
                  + steps_left (RA_NET_TX_TS_LIST_SIZE P) ts_rd ts_wr"
        using c True steps_left_advance [OF less.prems(1) w1] steps_left_advance [OF less.prems(2) w2]
        by (elim conjE disjE) (simp_all add: add_less_mono add_less_le_mono add_le_less_mono)
      obtain r where r: "work_loop P skb_wr ts_wr (s', a', b') = Some r"
        and rf: "case r of Inl e \<Rightarrow> True | Inr (s'', a'', b'') \<Rightarrow> loop_frame s' s''"
        using less.hyps [OF dec a'n b'n] by blast
      have "case r of Inl e \<Rightarrow> True | Inr (s'', a'', b'') \<Rightarrow> loop_frame s s''"
        using rf fr by (auto intro: loop_frame_trans split: sum.splits)
      moreover have "work_loop P skb_wr ts_wr (s, skb_rd, ts_rd) = Some r"
        using Inr l' True r by (subst work_loop.simps) auto
      ultimately show ?thesis by blast
    qed
  qed
qed

text \<open>
  C8, as claimed, fails: the handler finds the Timestamp Ring full, sets the flag and
  disables the interrupt; the next run of the worker releases a pending packet that is too
  short to carry a sequence id, consumes no timestamp, and enables the interrupt while the
  ring is as full as before.
\<close>

theorem ra_net_tx_ts_work_reenables_full_ring:
  "ra_net_tx_ts_irq P0 s_ts_full = Some s_ts_full_off \<and>
   ra_net_tx_ts_work P0 s_ts_full_off = Some (Inr s_ts_full_on) \<and>
   (ts_wr_idx s_ts_full_on + 1) mod RA_NET_TX_TS_LIST_SIZE P0 = ts_rd_idx s_ts_full_on \<and>
   ts_rd_idx s_ts_full_on = ts_rd_idx s_ts_full_off \<and>
   pp_irq_en s_ts_full_on AND RA_NET_PP_IRQ_PTP_TX_TS_IRQ_AVAILABLE P0 \<noteq> 0"
  by (simp add: ra_net_tx_ts_irq_def ra_net_pp_irq_disable_def ra_net_pp_irq_enable_def
      ra_net_tx_ts_work_def work_loop.simps work_body_def ra_net_stamp_tx_skb_def
      dev_kfree_skb_any_def dev_kfree_skb_def concrete_defs)

text \<open>
  C8, amended. On a full Timestamp Ring the handler sets the re-enable flag, disables the
  interrupt source once and changes nothing else. Every run of the worker ends. A run that
  ends without a fault adds to the trace the completions and releases of packets made by its
  matching loop and, after all of them and only when it found the flag set, one call that
  enables the source; it makes no other call, leaves the flag clear, and changes the
  interrupt enables by that one call only. Whether the loop consumed a timestamp plays no
  part.
\<close>

theorem ra_net_tx_ts_irq_disable_reenable:
  assumes ok: "rings_ok P s"
  shows "((ts_wr_idx s + 1) mod RA_NET_TX_TS_LIST_SIZE P = ts_rd_idx s \<longrightarrow>
          ra_net_tx_ts_irq P s =
            Some (s\<lparr>reenable_irq := True,
                    pp_irq_en := pp_irq_en s AND NOT (RA_NET_PP_IRQ_PTP_TX_TS_IRQ_AVAILABLE P),
                    trace := trace s @ [Dev_err_buffer_full,
                                        Irq_disable (RA_NET_PP_IRQ_PTP_TX_TS_IRQ_AVAILABLE P)]\<rparr>))
       \<and> (\<exists>r. ra_net_tx_ts_work P s = Some r \<and>
             (case r of
                Inl e \<Rightarrow> True
              | Inr s' \<Rightarrow>
                  \<not> reenable_irq s' \<and>
                  (\<exists>evs. list_all is_packet_event evs \<and>
                     trace s' =
                       trace s @ evs @
                       (if reenable_irq s
                        then [Irq_enable (RA_NET_PP_IRQ_PTP_TX_TS_IRQ_AVAILABLE P)] else [])) \<and>
                  pp_irq_en s' =
                    (if reenable_irq s
                     then pp_irq_en s OR RA_NET_PP_IRQ_PTP_TX_TS_IRQ_AVAILABLE P
                     else pp_irq_en s)))"
proof (intro conjI impI)
  assume full: "(ts_wr_idx s + 1) mod RA_NET_TX_TS_LIST_SIZE P = ts_rd_idx s"
  have nx: "((ts_wr_idx s mod 65536 + 1) mod 65536) mod RA_NET_TX_TS_LIST_SIZE P
            = (ts_wr_idx s + 1) mod RA_NET_TX_TS_LIST_SIZE P"
    using ok by (intro u16_next) (simp_all add: rings_ok_def)
  show "ra_net_tx_ts_irq P s =
            Some (s\<lparr>reenable_irq := True,
                    pp_irq_en := pp_irq_en s AND NOT (RA_NET_PP_IRQ_PTP_TX_TS_IRQ_AVAILABLE P),
                    trace := trace s @ [Dev_err_buffer_full,
                                        Irq_disable (RA_NET_PP_IRQ_PTP_TX_TS_IRQ_AVAILABLE P)]\<rparr>)"
    unfolding ra_net_tx_ts_irq_def nx using full
    by (simp add: ra_net_pp_irq_disable_def)
next
  let ?A = "RA_NET_PP_IRQ_PTP_TX_TS_IRQ_AVAILABLE P"
  let ?fin = "\<lambda>s2. if reenable_irq s2
                   then ra_net_pp_irq_enable (s2\<lparr>reenable_irq := False\<rparr>) ?A
                   else s2"
  let ?post = "\<lambda>s'. \<not> reenable_irq s' \<and>
                  (\<exists>evs. list_all is_packet_event evs \<and>
                     trace s' = trace s @ evs @ (if reenable_irq s then [Irq_enable ?A] else [])) \<and>
                  pp_irq_en s' = (if reenable_irq s then pp_irq_en s OR ?A else pp_irq_en s)"
  have fin: "?post (?fin s2)" if lf: "loop_frame s s2" for s2
  proof -
    obtain evs where e: "trace s2 = trace s @ evs" "list_all is_packet_event evs"
      and f: "reenable_irq s2 = reenable_irq s" "pp_irq_en s2 = pp_irq_en s"
      using loop_frameD [OF lf] by blast
    show ?thesis using e f by (auto simp add: ra_net_pp_irq_enable_def)
  qed
  show "\<exists>r. ra_net_tx_ts_work P s = Some r \<and> (case r of Inl e \<Rightarrow> True | Inr s' \<Rightarrow> ?post s')"
  proof (cases "ts_wr_idx s = ts_rd_idx s")
    case True
    then show ?thesis
      using fin [OF loop_frame_refl] by (simp add: ra_net_tx_ts_work_def)
  next
    case False
    have w1: "skb_wr_idx s < RA_NET_TX_SKB_LIST_SIZE P" and w2: "ts_wr_idx s < RA_NET_TX_TS_LIST_SIZE P"
      and r1: "skb_rd_idx s < RA_NET_TX_SKB_LIST_SIZE P" and r2: "ts_rd_idx s < RA_NET_TX_TS_LIST_SIZE P"
      using ok by (simp_all add: rings_ok_def)
    obtain r where r: "work_loop P (skb_wr_idx s) (ts_wr_idx s) (s, skb_rd_idx s, ts_rd_idx s) = Some r"
      and rf: "case r of Inl e \<Rightarrow> True | Inr (s', a', b') \<Rightarrow> loop_frame s s'"
      using work_loop_result [OF w1 w2 r1 r2] by blast
    show ?thesis
    proof (cases r)
      case (Inl e)
      then show ?thesis using False r by (simp add: ra_net_tx_ts_work_def)
    next
      case (Inr l)
      obtain s1 a b where l: "l = (s1, a, b)" by (cases l) auto
      have "loop_frame s s1" using rf Inr l by simp
      then have "loop_frame s (s1\<lparr>ts_rd_idx := b, skb_rd_idx := a\<rparr>)"
        by (simp add: loop_frame_def)
      from fin [OF this] show ?thesis
        using False r Inr l by (simp add: ra_net_tx_ts_work_def)
    qed
  qed
qed

theorem ra_net_tx_ts_irq_disable_reenable_witness:
  "rings_ok P0 s_match_full \<and>
   (ts_wr_idx s_match_full + 1) mod RA_NET_TX_TS_LIST_SIZE P0 = ts_rd_idx s_match_full \<and>
   ra_net_tx_ts_irq P0 s_match_full = Some s_match_off \<and>
   rings_ok P0 s_match_off \<and>
   ra_net_tx_ts_work P0 s_match_off = Some (Inr s_match_on) \<and>
   \<not> reenable_irq s_match_on \<and>
   trace s_match_on = trace s_match_off @ [Tstamp_tx 100 2000000005, Kfree 100] @ [Irq_enable 2] \<and>
   pp_irq_en s_match_on = 2"
proof -
  note d = concrete_defs s_match_full_def s_match_off_def s_match_on_def
  have ok1: "rings_ok P0 s_match_full" and ok2: "rings_ok P0 s_match_off"
    by (simp_all add: rings_ok_def d)
  have full: "(ts_wr_idx s_match_full + 1) mod RA_NET_TX_TS_LIST_SIZE P0 = ts_rd_idx s_match_full"
    by (simp add: d)
  have irq: "ra_net_tx_ts_irq P0 s_match_full = Some s_match_off"
    using ra_net_tx_ts_irq_disable_reenable [OF ok1] full by (simp add: d)
  have run: "ra_net_tx_ts_work P0 s_match_off = Some (Inr s_match_on)"
    by (simp add: ra_net_pp_irq_enable_def ra_net_tx_ts_work_def work_loop.simps work_body_def
        ra_net_stamp_tx_skb_def skb_tstamp_tx_def ts_to_ns_def NSEC_PER_SEC_def
        dev_kfree_skb_any_def dev_kfree_skb_def d)
  have "\<not> reenable_irq s_match_on \<and> pp_irq_en s_match_on = pp_irq_en s_match_off OR 2"
    using ra_net_tx_ts_irq_disable_reenable [OF ok2] unfolding run by (simp add: s_match_off_def P0_def)
  moreover have "pp_irq_en s_match_off OR 2 = 2" by (simp add: s_match_off_def)
  moreover have "trace s_match_on
                   = trace s_match_off @ [Tstamp_tx 100 2000000005, Kfree 100] @ [Irq_enable 2]"
    by (simp add: d)
  ultimately show ?thesis using ok1 ok2 full irq run by simp
qed

end
